theory Spec2Isabelle
  imports Main "HOL-Library.Word"
begin

unbundle bit_operations_syntax

section \<open>Terms of the core language\<close>

text \<open>
  A term of the source is the array \<^verbatim>\<open>[ctor, fields, memo, loc]\<close> built by \<^verbatim>\<open>Ctr\<close>.
  The embedding keeps the constructor and its fields.  The memo string is a function of
  the constructor and the fields (see \<open>memo\<close> below), and the source location plays no
  part in any operation modelled here, so neither is stored.  Indices and depths are
  JavaScript numbers which the code adds to and subtracts from each other freely (a hole
  value is shifted by a negative amount when it is read at a smaller depth), so they are
  integers.  The binder annotation of a \<open>Lam\<close> may be \<^verbatim>\<open>null\<close>.

  The \<^verbatim>\<open>done\<close> field of an \<open>Ann\<close> is the only part of a term that the code assigns to
  after construction.  Where a term is used as a value its \<open>Ann\<close> nodes carry the flag
  itself; the type checker, which assigns to the flag of objects that several terms
  share, works on terms whose \<open>Ann\<close> nodes carry the address of their flag (section
  ``The type checker'').  The datatype is therefore parametric in what an \<open>Ann\<close> carries.
\<close>

datatype 'f gterm =
    Var int
  | Typ
  | AllT string "'f gterm" "'f gterm" bool
  | Lam string "'f gterm option" "'f gterm" bool
  | App "'f gterm" "'f gterm" bool
  | Slf string "'f gterm"
  | New "'f gterm" "'f gterm"
  | Use "'f gterm"
  | Num
  | Val int
  | Op1 string "'f gterm" "'f gterm"
  | Op2 string "'f gterm" "'f gterm"
  | Ite "'f gterm" "'f gterm" "'f gterm"
  | Ann "'f gterm" "'f gterm" 'f
  | Log "'f gterm" "'f gterm"
  | Hol string
  | Ref string bool

type_synonym "term" = "bool gterm"

subsection \<open>Substitution\<close>

fun shift :: "term \<Rightarrow> int \<Rightarrow> int \<Rightarrow> term" where
  "shift (Var index) i d = Var (if index < d then index else index + i)"
| "shift Typ i d = Typ"
| "shift (AllT name bind body eras) i d = AllT name (shift bind i d) (shift body i (d + 1)) eras"
| "shift (Lam name bind body eras) i d =
     Lam name (map_option (\<lambda>b. shift b i d) bind) (shift body i (d + 1)) eras"
| "shift (App func argm eras) i d = App (shift func i d) (shift argm i d) eras"
| "shift Num i d = Num"
| "shift (Val numb) i d = Val numb"
| "shift (Op1 func num0 num1) i d = Op1 func (shift num0 i d) (shift num1 i d)"
| "shift (Op2 func num0 num1) i d = Op2 func (shift num0 i d) (shift num1 i d)"
| "shift (Ite cond if_t if_f) i d = Ite (shift cond i d) (shift if_t i d) (shift if_f i d)"
| "shift (Slf name type) i d = Slf name (shift type i (d + 1))"
| "shift (New type expr) i d = New (shift type i d) (shift expr i d)"
| "shift (Use expr) i d = Use (shift expr i d)"
| "shift (Ann type expr done) i d = Ann (shift type i d) (shift expr i d) done"
| "shift (Log msge expr) i d = Log (shift msge i d) (shift expr i d)"
| "shift (Hol name) i d = Hol name"
| "shift (Ref name eras) i d = Ref name eras"

fun subst :: "term \<Rightarrow> term \<Rightarrow> int \<Rightarrow> term" where
  "subst (Var index) v d = (if d = index then v else Var (index - (if index > d then 1 else 0)))"
| "subst Typ v d = Typ"
| "subst (AllT name bind body eras) v d =
     AllT name (subst bind v d) (subst body (shift v 1 0) (d + 1)) eras"
| "subst (Lam name bind body eras) v d =
     Lam name (map_option (\<lambda>b. subst b v d) bind) (subst body (shift v 1 0) (d + 1)) eras"
| "subst (App func argm eras) v d = App (subst func v d) (subst argm v d) eras"
| "subst Num v d = Num"
| "subst (Val numb) v d = Val numb"
| "subst (Op1 func num0 num1) v d = Op1 func (subst num0 v d) (subst num1 v d)"
| "subst (Op2 func num0 num1) v d = Op2 func (subst num0 v d) (subst num1 v d)"
| "subst (Ite cond if_t if_f) v d = Ite (subst cond v d) (subst if_t v d) (subst if_f v d)"
| "subst (Slf name type) v d = Slf name (subst type (shift v 1 0) (d + 1))"
| "subst (New type expr) v d = New (subst type v d) (subst expr v d)"
| "subst (Use expr) v d = Use (subst expr v d)"
| "subst (Ann type expr done) v d = Ann (subst type v d) (subst expr v d) done"
| "subst (Log msge expr) v d = Log (subst msge v d) (subst expr v d)"
| "subst (Hol name) v d = Hol name"
| "subst (Ref name eras) v d = Ref name eras"

subsection \<open>Erasure\<close>

text \<open>
  \<^verbatim>\<open>erase\<close> recurses on \<^verbatim>\<open>subst(body, Hol("<erased>"), 0)\<close> under an erased lambda, which
  is not a subterm; replacing a variable by a hole never makes a term larger, so the
  recursion is well-founded on the number of constructors.
\<close>

lemma size_subst_Hol: "size (subst t (Hol h) d) \<le> size t"
proof (induction t arbitrary: d)
  case (Lam name bind body eras)
  have "size_option size (map_option (\<lambda>b. subst b (Hol h) d) bind) \<le> size_option size bind"
    using Lam.IH(1) by (cases bind) auto
  moreover have "size (subst body (Hol h) (d + 1)) \<le> size body"
    using Lam.IH(2) .
  ultimately show ?case by simp
qed (auto simp: le_SucI add_le_mono)

function erase :: "term \<Rightarrow> term" where
  "erase (Var index) = Var index"
| "erase Typ = Typ"
| "erase (AllT name bind body eras) = AllT name (erase bind) (erase body) eras"
| "erase (Lam name bind body eras) =
     (if eras then erase (subst body (Hol ''<erased>'') 0)
      else Lam name None (erase body) eras)"
| "erase (App func argm eras) =
     (if eras then erase func else App (erase func) (erase argm) eras)"
| "erase Num = Num"
| "erase (Val numb) = Val numb"
| "erase (Op1 func num0 num1) = Op1 func (erase num0) (erase num1)"
| "erase (Op2 func num0 num1) = Op2 func (erase num0) (erase num1)"
| "erase (Ite cond if_t if_f) = Ite (erase cond) (erase if_t) (erase if_f)"
| "erase (Slf name type) = Slf name (erase type)"
| "erase (New type expr) = erase expr"
| "erase (Use expr) = erase expr"
| "erase (Ann type expr done) = erase expr"
| "erase (Log msge expr) = Log (erase msge) (erase expr)"
| "erase (Hol name) = Hol name"
| "erase (Ref name eras) = Ref name True"
  by pat_completeness auto
termination
proof (relation "measure size")
  fix name bind body eras
  show "(subst body (Hol ''<erased>'') 0, Lam name bind body eras) \<in> measure size"
    using size_subst_Hol [of body "''<erased>''" 0] by simp
qed auto

section \<open>Affinity checking\<close>

text \<open>
  Definitions are a JavaScript object from names to terms; the embedding uses an
  association list read with \<open>map_of\<close>.  Reading a field of \<^verbatim>\<open>undefined\<close> raises the
  host's \<^verbatim>\<open>TypeError\<close>, which is a value of the error type here.  The reducer throws
  a string for a primitive it does not know, and the type checker throws the message of
  \<^verbatim>\<open>do_error\<close>; the text of a message, which prints terms, is left out and \<open>check_error\<close>
  names the message.  Names are taken not to
  be properties that every JavaScript object inherits.
\<close>

datatype check_error =
    Unbound_variable
  | Erased_variable_used
  | Forall_not_a_type
  | Lambda_not_annotated
  | Lambda_not_a_function
  | Not_a_function
  | Mismatched_erasure
  | If_not_numeric
  | New_not_self
  | Use_not_self
  | Undefined_reference
  | Type_mismatch

datatype error =
    Host_TypeError
  | Unknown_primitive string
  | Check check_error

type_synonym defs = "(string \<times> term) list"

fun uses :: "term \<Rightarrow> int \<Rightarrow> nat" where
  "uses (Var index) depth = (if index = depth then 1 else 0)"
| "uses (Lam name bind body eras) depth = uses body (depth + 1)"
| "uses (App func argm eras) depth = uses func depth + (if eras then 0 else uses argm depth)"
| "uses (Op1 func num0 num1) depth = uses num0 depth + uses num1 depth"
| "uses (Op2 func num0 num1) depth = uses num0 depth + uses num1 depth"
| "uses (Ite cond if_t if_f) depth = uses cond depth + uses if_t depth + uses if_f depth"
| "uses (New type expr) depth = uses expr depth"
| "uses (Use expr) depth = uses expr depth"
| "uses (Ann type expr done) depth = uses expr depth"
| "uses (Log msge expr) depth = uses expr depth"
| "uses _ depth = 0"

lemma card_unseen_less:
  assumes "name \<notin> seen" and "map_of defs name = Some t"
  shows "card (fst ` set defs - insert name seen) < card (fst ` set defs - seen)"
proof -
  have "name \<in> fst ` set defs - seen"
    using assms by (auto dest!: map_of_SomeD intro: rev_image_eqI)
  then have "card ((fst ` set defs - seen) - {name}) < card (fst ` set defs - seen)"
    by (intro card_Diff1_less) auto
  moreover have "fst ` set defs - insert name seen = (fst ` set defs - seen) - {name}"
    by auto
  ultimately show ?thesis
    by simp
qed

definition both :: "error + bool \<Rightarrow> error + bool \<Rightarrow> error + bool" where
  \<comment> \<open>\<^verbatim>\<open>var x = ...; var y = ...; return x && y\<close>: both calls are made, then combined.\<close>
  "both x y =
     (case x of Inl e \<Rightarrow> Inl e
      | Inr a \<Rightarrow> (case y of Inl e \<Rightarrow> Inl e | Inr b \<Rightarrow> Inr (a \<and> b)))"

function is_affine :: "term \<Rightarrow> defs \<Rightarrow> string set \<Rightarrow> error + bool" where
  "is_affine (Lam name bind body eras) defs seen =
     both (Inr (uses body 0 \<le> 1)) (is_affine body defs seen)"
| "is_affine (App func argm eras) defs seen =
     both (is_affine func defs seen) (if eras then Inr True else is_affine argm defs seen)"
| "is_affine (Op1 func num0 num1) defs seen =
     both (is_affine num0 defs seen) (is_affine num1 defs seen)"
| "is_affine (Op2 func num0 num1) defs seen =
     both (is_affine num0 defs seen) (is_affine num1 defs seen)"
| "is_affine (Ite cond if_t if_f) defs seen =
     both (both (is_affine cond defs seen) (is_affine if_t defs seen)) (is_affine if_t defs seen)"
| "is_affine (New type expr) defs seen = is_affine expr defs seen"
| "is_affine (Use expr) defs seen = is_affine expr defs seen"
| "is_affine (Ann type expr done) defs seen = is_affine expr defs seen"
| "is_affine (Log msge expr) defs seen = is_affine expr defs seen"
| "is_affine (Ref name eras) defs seen =
     (if name \<in> seen then Inr True
      else (case map_of defs name of
              None \<Rightarrow> Inl Host_TypeError
            | Some t \<Rightarrow> is_affine t defs (insert name seen)))"
| "is_affine (Var index) defs seen = Inr True"
| "is_affine Typ defs seen = Inr True"
| "is_affine (AllT name bind body eras) defs seen = Inr True"
| "is_affine (Slf name type) defs seen = Inr True"
| "is_affine Num defs seen = Inr True"
| "is_affine (Val numb) defs seen = Inr True"
| "is_affine (Hol name) defs seen = Inr True"
  by pat_completeness auto
termination
  by (relation "measures [\<lambda>(t, defs, seen). card (fst ` set defs - seen),
                          \<lambda>(t, defs, seen). size t]")
     (auto simp: card_unseen_less)

section \<open>The reducer\<close>

subsection \<open>Results\<close>

text \<open>
  A call of the source returns a value, throws, or does not return.  The recursion of the
  reducer is bounded by fuel in the embedding, and running out of fuel halts with
  \<open>Out_of_fuel\<close>.  Numbers of the source are IEEE doubles.  The embedding represents the
  integer-valued ones by \<open>int\<close>, and a primitive whose result is not an integer that a
  double holds exactly halts the computation with \<open>Not_integer\<close>: nothing is stated about
  what the source does with such a number.

  \<open>res\<close> is the result of a function that changes no state.  \<open>out\<close> is the result of one
  that does: the state comes with the value returned and with the error thrown, since
  what was assigned before a \<^verbatim>\<open>throw\<close> stays assigned.
\<close>

datatype halt = Out_of_fuel | Not_integer

datatype 'a res = Ret 'a | Throw error | Halt halt

definition rbind :: "'a res \<Rightarrow> ('a \<Rightarrow> 'b res) \<Rightarrow> 'b res" where
  "rbind m f = (case m of Ret x \<Rightarrow> f x | Throw e \<Rightarrow> Throw e | Halt h \<Rightarrow> Halt h)"

datatype ('a, 's) out = Ok 'a 's | Err error 's | Halted halt

definition obind :: "('s \<Rightarrow> ('a, 's) out) \<Rightarrow> ('a \<Rightarrow> 's \<Rightarrow> ('b, 's) out) \<Rightarrow> 's \<Rightarrow> ('b, 's) out" where
  "obind m f s = (case m s of Ok x s' \<Rightarrow> f x s' | Err e s' \<Rightarrow> Err e s' | Halted h \<Rightarrow> Halted h)"

definition lift :: "'a res \<Rightarrow> 's \<Rightarrow> ('a, 's) out" where
  \<comment> \<open>a call that leaves the state as it is\<close>
  "lift r s = (case r of Ret x \<Rightarrow> Ok x s | Throw e \<Rightarrow> Err e s | Halt h \<Rightarrow> Halted h)"

subsection \<open>Holes and options\<close>

text \<open>
  The value of a hole is \<^verbatim>\<open>undefined\<close> (unset), a term, or \<^verbatim>\<open>null\<close> (conflicting
  solutions).  An absent \<^verbatim>\<open>opts.holes\<close> behaves like the empty registry, and an absent
  \<^verbatim>\<open>opts.depth\<close> like \<open>0\<close>.  The option \<^verbatim>\<open>logs\<close> only adds console output; the embedding
  covers reductions with \<^verbatim>\<open>logs\<close> unset and has no console.
\<close>

datatype hole_value = Unset | Assigned "term" | Conflict

record hole =
  hdepth :: int
  hvalue :: hole_value

type_synonym holes = "string \<rightharpoonup> hole"

record opts =
  weak :: bool
  no_app :: bool
  no_op1 :: bool
  no_op2 :: bool
  no_ite :: bool
  no_ref :: bool
  no_hol :: bool
  no_use :: bool
  no_ann :: bool
  holes :: holes
  depth :: int

subsection \<open>Semantic values\<close>

text \<open>
  \<^verbatim>\<open>unquote\<close> turns a term into a value whose binders are host functions.  The two
  function expressions of the source become the two constructors of \<open>clo\<close>: the one
  written in \<^verbatim>\<open>unquote\<close> captures the body and the environment, the one written in
  \<^verbatim>\<open>reduce\<close> captures the closure it wraps, the binder's name and the names.  An
  environment is the linked list built by \<^verbatim>\<open>names_ext\<close>.
\<close>

datatype sem =
    SVar int
  | STyp
  | SAll string sem clo bool
  | SLam string "sem option" clo bool
  | SApp sem sem bool
  | SSlf string clo
  | SNew sem sem
  | SUse sem
  | SNum
  | SVal int
  | SOp1 string sem sem
  | SOp2 string sem sem
  | SIte sem sem sem
  | SAnn sem sem bool
  | SLog sem sem
  | SHol string
  | SRef string bool
and clo =
    Unquoted "term" "(sem \<times> string option) list"
  | Reduced clo string "(sem \<times> string option) list"

type_synonym names = "(sem \<times> string option) list"

definition names_get :: "int \<Rightarrow> names \<Rightarrow> (sem \<times> string option) option" where
  "names_get i names = (case drop (nat i) names of [] \<Rightarrow> None | fr # rest \<Rightarrow> Some fr)"

definition names_var :: "int \<Rightarrow> names \<Rightarrow> sem" where
  "names_var i names =
     (case names_get i names of
        Some got \<Rightarrow> fst got
      | None \<Rightarrow> SVar (int (length names) - i - 1))"

fun unquote :: "term \<Rightarrow> names \<Rightarrow> sem" where
  "unquote (Var index) names = names_var index names"
| "unquote Typ names = STyp"
| "unquote (AllT name bind body eras) names =
     SAll name (unquote bind names) (Unquoted body names) eras"
| "unquote (Lam name bind body eras) names =
     SLam name (map_option (\<lambda>b. unquote b names) bind) (Unquoted body names) eras"
| "unquote (App func argm eras) names = SApp (unquote func names) (unquote argm names) eras"
| "unquote Num names = SNum"
| "unquote (Val numb) names = SVal numb"
| "unquote (Op1 func num0 num1) names = SOp1 func (unquote num0 names) (unquote num1 names)"
| "unquote (Op2 func num0 num1) names = SOp2 func (unquote num0 names) (unquote num1 names)"
| "unquote (Ite cond if_t if_f) names =
     SIte (unquote cond names) (unquote if_t names) (unquote if_f names)"
| "unquote (Slf name type) names = SSlf name (Unquoted type names)"
| "unquote (New type expr) names = SNew (unquote type names) (unquote expr names)"
| "unquote (Use expr) names = SUse (unquote expr names)"
| "unquote (Ann type expr done) names = SAnn (unquote type names) (unquote expr names) done"
| "unquote (Log msge expr) names = SLog (unquote msge names) (unquote expr names)"
| "unquote (Hol name) names = SHol name"
| "unquote (Ref name eras) names = SRef name eras"

subsection \<open>Primitive operations\<close>

definition exact :: "int \<Rightarrow> int res" where
  \<comment> \<open>an integer result that a double holds exactly\<close>
  "exact r = (if \<bar>r\<bar> \<le> 2 ^ 53 then Ret r else Halt Not_integer)"

definition to_word :: "int \<Rightarrow> 32 word" where
  \<comment> \<open>the host's conversion of the operands of a bitwise operator to 32 bits\<close>
  "to_word a = word_of_int a"

definition prim :: "string \<Rightarrow> int \<Rightarrow> int \<Rightarrow> int res" where
  "prim func a b =
     (if func = ''.+.'' then exact (a + b)
      else if func = ''.-.'' then exact (a - b)
      else if func = ''.*.'' then exact (a * b)
      else if func = ''./.'' then
        (if b \<noteq> 0 \<and> b dvd a then Ret (a div b) else Halt Not_integer)
      else if func = ''.%.'' then
        (if b \<noteq> 0 then Ret (sgn a * (\<bar>a\<bar> mod \<bar>b\<bar>)) else Halt Not_integer)
      else if func = ''.**.'' then
        (if 0 \<le> b then exact (a ^ nat b)
         else if a = 1 then Ret 1
         else if a = - 1 then Ret (if even b then 1 else - 1)
         else Halt Not_integer)
      else if func = ''.&.'' then Ret (uint (to_word a AND to_word b))
      else if func = ''.|.'' then Ret (uint (to_word a OR to_word b))
      else if func = ''.^.'' then Ret (uint (to_word a XOR to_word b))
      else if func = ''.~.'' then Ret (sint (NOT (to_word b)))
      else if func = ''.>>>.'' then Ret (uint (drop_bit (nat (b mod 32)) (to_word a)))
      else if func = ''.<<.'' then Ret (sint (push_bit (nat (b mod 32)) (to_word a)))
      else if func = ''.>.'' then Ret (if a > b then 1 else 0)
      else if func = ''.<.'' then Ret (if a < b then 1 else 0)
      else if func = ''.==.'' then Ret (if a = b then 1 else 0)
      else Throw (Unknown_primitive func))"

subsection \<open>Reduction of semantic values\<close>

definition is_SVal :: "sem \<Rightarrow> bool" where
  "is_SVal t = (case t of SVal n \<Rightarrow> True | _ \<Rightarrow> False)"

text \<open>
  The functions nested in \<^verbatim>\<open>reduce\<close> call each other.  \<open>reduce_body\<close> is the body of
  the inner \<^verbatim>\<open>reduce\<close> (with \<^verbatim>\<open>apply\<close>, \<^verbatim>\<open>op1\<close>, \<^verbatim>\<open>op2\<close>, \<^verbatim>\<open>if_then_else\<close>,
  \<^verbatim>\<open>dereference\<close>, \<^verbatim>\<open>unhole\<close>, \<^verbatim>\<open>use\<close>, \<^verbatim>\<open>ann\<close> and \<^verbatim>\<open>log\<close> inlined at their only
  call), given the function its recursive calls go to; \<open>reduce_sem\<close> ties the knot by
  recursion on the fuel.  \<open>weak_reduce_with\<close> and \<open>call_with\<close> are \<^verbatim>\<open>weak_reduce\<close> and
  the application of a closure, given the reducer they call.
\<close>

definition weak_reduce_with ::
  "opts \<Rightarrow> (sem \<Rightarrow> names \<Rightarrow> sem res) \<Rightarrow> sem \<Rightarrow> names \<Rightarrow> sem res" where
  "weak_reduce_with opts red t names = (if weak opts then Ret t else red t names)"

fun call_with :: "opts \<Rightarrow> (sem \<Rightarrow> names \<Rightarrow> sem res) \<Rightarrow> clo \<Rightarrow> sem \<Rightarrow> sem res" where
  "call_with opts red (Unquoted body env) x = Ret (unquote body ((x, None) # env))"
| "call_with opts red (Reduced c name names) x =
     rbind (call_with opts red c x) (\<lambda>r.
     weak_reduce_with opts red r ((x, Some name) # names))"

definition reduce_body ::
  "opts \<Rightarrow> defs \<Rightarrow> (sem \<Rightarrow> names \<Rightarrow> sem res) \<Rightarrow> sem \<Rightarrow> names \<Rightarrow> sem res" where
  "reduce_body opts defs reduce t names =
    (let weak_reduce = weak_reduce_with opts reduce;
         call = call_with opts reduce
     in
     case t of
        SVar index \<Rightarrow> Ret (SVar index)
      | STyp \<Rightarrow> Ret STyp
      | SAll name bind body eras \<Rightarrow>
          rbind (weak_reduce bind names) (\<lambda>bind'.
          Ret (SAll name bind' (Reduced body name names) eras))
      | SLam name bind body eras \<Rightarrow>
          rbind (case bind of
                   None \<Rightarrow> Ret None
                 | Some b \<Rightarrow> rbind (weak_reduce b names) (\<lambda>b'. Ret (Some b')))
            (\<lambda>bind'. Ret (SLam name bind' (Reduced body name names) eras))
      | SApp func argm eras \<Rightarrow>
          \<comment> \<open>\<^verbatim>\<open>apply\<close>\<close>
          rbind (reduce func names) (\<lambda>func'.
          case func' of
            SLam lname lbind lbody leras \<Rightarrow>
              if \<not> no_app opts then
                rbind (call lbody argm) (\<lambda>r. reduce r names)
              else
                rbind (weak_reduce argm names) (\<lambda>argm'.
                Ret (SApp func' argm' eras))
          | _ \<Rightarrow>
              rbind (weak_reduce argm names) (\<lambda>argm'.
              Ret (SApp func' argm' eras)))
      | SNum \<Rightarrow> Ret SNum
      | SVal numb \<Rightarrow> Ret (SVal numb)
      | SOp1 func num0 num1 \<Rightarrow>
          \<comment> \<open>\<^verbatim>\<open>op1\<close>\<close>
          rbind (reduce num0 names) (\<lambda>num0'.
          case (num0', num1) of
            (SVal a, SVal b) \<Rightarrow>
              if \<not> no_op1 opts then rbind (prim func a b) (\<lambda>r. Ret (SVal r))
              else Ret (SOp1 func num0' num1)
          | _ \<Rightarrow> Ret (SOp1 func num0' num1))
      | SOp2 func num0 num1 \<Rightarrow>
          \<comment> \<open>\<^verbatim>\<open>op2\<close>\<close>
          rbind (reduce num1 names) (\<lambda>num1'.
          if \<not> no_op2 opts \<and> is_SVal num1' then
            reduce (SOp1 func num0 num1') names
          else
            rbind (weak_reduce num0 names) (\<lambda>num0'.
            Ret (SOp2 func num0' num1')))
      | SIte cond if_t if_f \<Rightarrow>
          \<comment> \<open>\<^verbatim>\<open>if_then_else\<close>\<close>
          rbind (reduce cond names) (\<lambda>cond'.
          case cond' of
            SVal numb \<Rightarrow>
              if \<not> no_ite opts then
                (if numb > 0 then reduce if_t names else reduce if_f names)
              else
                rbind (weak_reduce if_t names) (\<lambda>if_t'.
                rbind (weak_reduce if_f names) (\<lambda>if_f'.
                Ret (SIte cond' if_t' if_f')))
          | _ \<Rightarrow>
              rbind (weak_reduce if_t names) (\<lambda>if_t'.
              rbind (weak_reduce if_f names) (\<lambda>if_f'.
              Ret (SIte cond' if_t' if_f'))))
      | SSlf name type \<Rightarrow> Ret (SSlf name (Reduced type name names))
      | SNew type expr \<Rightarrow>
          rbind (weak_reduce type names) (\<lambda>type'.
          rbind (weak_reduce expr names) (\<lambda>expr'.
          Ret (SNew type' expr')))
      | SUse expr \<Rightarrow>
          \<comment> \<open>\<^verbatim>\<open>use\<close>\<close>
          rbind (reduce expr names) (\<lambda>expr'.
          case expr' of
            SNew ntype nexpr \<Rightarrow>
              if \<not> no_use opts then reduce nexpr names
              else Ret (SUse expr')
          | _ \<Rightarrow> Ret (SUse expr'))
      | SAnn type expr done \<Rightarrow>
          \<comment> \<open>\<^verbatim>\<open>ann\<close>; the rebuilt annotation has the default \<^verbatim>\<open>done = false\<close>\<close>
          rbind (reduce expr names) (\<lambda>expr'.
          if \<not> no_ann opts then Ret expr'
          else
            rbind (weak_reduce type names) (\<lambda>type'.
            Ret (SAnn type' expr' False)))
      | SLog msge expr \<Rightarrow>
          \<comment> \<open>\<^verbatim>\<open>log\<close>\<close>
          rbind (reduce msge names) (\<lambda>msge'.
          rbind (reduce expr names) (\<lambda>expr'.
          Ret expr'))
      | SHol name \<Rightarrow>
          \<comment> \<open>\<^verbatim>\<open>unhole\<close>\<close>
          (case (if no_hol opts then None else holes opts name) of
             Some h \<Rightarrow>
               (case hvalue h of
                  Assigned v \<Rightarrow>
                    reduce
                      (unquote (shift v (depth opts + int (length names) - hdepth h) 0) names)
                      names
                | _ \<Rightarrow> Ret (SHol name))
           | None \<Rightarrow> Ret (SHol name))
      | SRef name eras \<Rightarrow>
          \<comment> \<open>\<^verbatim>\<open>dereference\<close>\<close>
          (case (if no_ref opts then None else map_of defs name) of
             Some v \<Rightarrow> reduce (unquote (if eras then erase v else v) []) []
           | None \<Rightarrow> Ret (SRef name eras)))"

primrec reduce_sem :: "opts \<Rightarrow> defs \<Rightarrow> nat \<Rightarrow> sem \<Rightarrow> names \<Rightarrow> sem res" where
  "reduce_sem opts defs 0 = (\<lambda>t names. Halt Out_of_fuel)"
| "reduce_sem opts defs (Suc n) = reduce_body opts defs (reduce_sem opts defs n)"

definition weak_reduce :: "opts \<Rightarrow> defs \<Rightarrow> nat \<Rightarrow> sem \<Rightarrow> names \<Rightarrow> sem res" where
  "weak_reduce opts defs n = weak_reduce_with opts (reduce_sem opts defs n)"

definition call :: "opts \<Rightarrow> defs \<Rightarrow> nat \<Rightarrow> clo \<Rightarrow> sem \<Rightarrow> sem res" where
  "call opts defs n = call_with opts (reduce_sem opts defs n)"

subsection \<open>Reading a value back\<close>

definition quote_body ::
  "(clo \<Rightarrow> sem \<Rightarrow> sem res) \<Rightarrow> (sem \<Rightarrow> int \<Rightarrow> term res) \<Rightarrow> sem \<Rightarrow> int \<Rightarrow> term res" where
  "quote_body call_clo quote_rec t d =
    (case t of
        SVar index \<Rightarrow> Ret (Var (d - 1 - index))
      | STyp \<Rightarrow> Ret Typ
      | SAll name bind body eras \<Rightarrow>
          rbind (quote_rec bind d) (\<lambda>bind'.
          rbind (call_clo body (SVar d)) (\<lambda>b.
          rbind (quote_rec b (d + 1)) (\<lambda>body'.
          Ret (AllT name bind' body' eras))))
      | SLam name bind body eras \<Rightarrow>
          rbind (case bind of
                   None \<Rightarrow> Ret None
                 | Some b \<Rightarrow> rbind (quote_rec b d) (\<lambda>b'. Ret (Some b')))
            (\<lambda>bind'.
          rbind (call_clo body (SVar d)) (\<lambda>b.
          rbind (quote_rec b (d + 1)) (\<lambda>body'.
          Ret (Lam name bind' body' eras))))
      | SApp func argm eras \<Rightarrow>
          rbind (quote_rec func d) (\<lambda>func'.
          rbind (quote_rec argm d) (\<lambda>argm'.
          Ret (App func' argm' eras)))
      | SNum \<Rightarrow> Ret Num
      | SVal numb \<Rightarrow> Ret (Val numb)
      | SOp1 func num0 num1 \<Rightarrow>
          rbind (quote_rec num0 d) (\<lambda>num0'.
          rbind (quote_rec num1 d) (\<lambda>num1'.
          Ret (Op1 func num0' num1')))
      | SOp2 func num0 num1 \<Rightarrow>
          rbind (quote_rec num0 d) (\<lambda>num0'.
          rbind (quote_rec num1 d) (\<lambda>num1'.
          Ret (Op2 func num0' num1')))
      | SIte cond if_t if_f \<Rightarrow>
          rbind (quote_rec cond d) (\<lambda>cond'.
          rbind (quote_rec if_t d) (\<lambda>if_t'.
          rbind (quote_rec if_f d) (\<lambda>if_f'.
          Ret (Ite cond' if_t' if_f'))))
      | SSlf name type \<Rightarrow>
          rbind (call_clo type (SVar d)) (\<lambda>t'.
          rbind (quote_rec t' (d + 1)) (\<lambda>type'.
          Ret (Slf name type')))
      | SNew type expr \<Rightarrow>
          rbind (quote_rec type d) (\<lambda>type'.
          rbind (quote_rec expr d) (\<lambda>expr'.
          Ret (New type' expr')))
      | SUse expr \<Rightarrow>
          rbind (quote_rec expr d) (\<lambda>expr'. Ret (Use expr'))
      | SAnn type expr done \<Rightarrow>
          rbind (quote_rec type d) (\<lambda>type'.
          rbind (quote_rec expr d) (\<lambda>expr'.
          Ret (Ann type' expr' done)))
      | SLog msge expr \<Rightarrow>
          rbind (quote_rec msge d) (\<lambda>msge'.
          rbind (quote_rec expr d) (\<lambda>expr'.
          Ret (Log msge' expr')))
      | SHol name \<Rightarrow> Ret (Hol name)
      | SRef name eras \<Rightarrow> Ret (Ref name eras))"

primrec quote :: "opts \<Rightarrow> defs \<Rightarrow> nat \<Rightarrow> sem \<Rightarrow> int \<Rightarrow> term res" where
  "quote opts defs 0 = (\<lambda>t d. Halt Out_of_fuel)"
| "quote opts defs (Suc n) = quote_body (call opts defs n) (quote opts defs n)"

subsection \<open>The entry point\<close>

text \<open>
  \<^verbatim>\<open>reduce\<close> accepts a term or the name of a definition.  With fuel \<open>n\<close> for the reduction
  and for the read-back it is \<open>reduce_fuel\<close>; \<open>reduce\<close> is the result with enough fuel,
  whatever that amount is.
\<close>

definition reduce_fuel :: "nat \<Rightarrow> string + term \<Rightarrow> defs \<Rightarrow> opts \<Rightarrow> term res" where
  "reduce_fuel n term defs opts =
     (let term = (case term of Inl name \<Rightarrow> Ref name False | Inr t \<Rightarrow> t);
          unquoted = unquote term []
      in rbind (reduce_sem opts defs n unquoted []) (\<lambda>reduced. quote opts defs n reduced 0))"

definition reduce :: "string + term \<Rightarrow> defs \<Rightarrow> opts \<Rightarrow> term res \<Rightarrow> bool" where
  "reduce term defs opts r =
     (r \<noteq> Halt Out_of_fuel \<and> (\<exists>n. reduce_fuel n term defs opts = r))"

text \<open>
  The options of a call \<^verbatim>\<open>reduce(term, defs)\<close> that passes none: \<^verbatim>\<open>opts = {}\<close>.
\<close>

definition default_opts :: opts where
  "default_opts = \<lparr>weak = False, no_app = False, no_op1 = False, no_op2 = False, no_ite = False,
     no_ref = False, no_hol = False, no_use = False, no_ann = False, holes = Map.empty, depth = 0\<rparr>"

section \<open>Typing contexts\<close>

text \<open>
  \<^verbatim>\<open>ctx_new\<close> is the object \<^verbatim>\<open>{length: 0}\<close>, and \<^verbatim>\<open>ctx_ext\<close> puts a frame with the fields
  \<^verbatim>\<open>name\<close>, \<^verbatim>\<open>term\<close>, \<^verbatim>\<open>type\<close>, \<^verbatim>\<open>eras\<close> in front of a context.  A field that the object
  read does not have is \<^verbatim>\<open>undefined\<close>, which is \<open>None\<close> in the record \<open>got\<close> of what
  \<^verbatim>\<open>ctx_get\<close> returns; \<^verbatim>\<open>shift\<close> of a missing type is \<^verbatim>\<open>null\<close>, \<open>None\<close> as well.
\<close>

datatype 'f gctx = Ctx_new | Ctx_ext string "'f gterm option" "'f gterm" bool "'f gctx"

type_synonym ctx = "bool gctx"

fun ctx_length :: "'f gctx \<Rightarrow> nat" where
  "ctx_length Ctx_new = 0"
| "ctx_length (Ctx_ext name trm type eras rest) = Suc (ctx_length rest)"

record 'f got =
  got_name :: "string option"
  got_term :: "'f gterm"
  got_type :: "'f gterm option"
  got_eras :: "bool option"

text \<open>
  The loop of \<^verbatim>\<open>ctx_get\<close>: \<open>k\<close> more frames to pass.  It reads \<^verbatim>\<open>ctx.rest.length\<close>; the
  empty context has no \<^verbatim>\<open>rest\<close>, and the read of \<^verbatim>\<open>length\<close> throws.
\<close>

fun ctx_walk :: "nat \<Rightarrow> ctx \<Rightarrow> ctx option res" where
  "ctx_walk 0 ctx = Ret (Some ctx)"
| "ctx_walk (Suc k) Ctx_new = Throw Host_TypeError"
| "ctx_walk (Suc k) (Ctx_ext name trm type eras rest) =
     (if ctx_length rest = 0 then Ret None else ctx_walk k rest)"

definition ctx_get :: "int \<Rightarrow> ctx \<Rightarrow> bool got option res" where
  "ctx_get i ctx =
     (if i < 0 then Ret None
      else
        rbind (ctx_walk (nat i) ctx) (\<lambda>found.
        case found of
          None \<Rightarrow> Ret None
        | Some Ctx_new \<Rightarrow>
            Ret (Some \<lparr>got_name = None, got_term = Var i, got_type = None, got_eras = None\<rparr>)
        | Some (Ctx_ext name trm type eras rest) \<Rightarrow>
            Ret (Some \<lparr>got_name = Some name,
                       got_term = (case trm of Some t \<Rightarrow> shift t (i + 1) 0 | None \<Rightarrow> Var i),
                       got_type = Some (shift type (i + 1) 0),
                       got_eras = Some eras\<rparr>)))"

section \<open>The equality engine\<close>

subsection \<open>Structural hashes\<close>

text \<open>
  The third component of a term is the string \<^verbatim>\<open>Ctr\<close> stores while the global \<^verbatim>\<open>MEMO\<close> is
  true.  Every term the engine compares by hash is built by \<^verbatim>\<open>erase\<close> at the entry of
  \<^verbatim>\<open>equal\<close> or by \<^verbatim>\<open>quote\<close> at the end of \<^verbatim>\<open>reduce\<close>, where \<^verbatim>\<open>MEMO\<close> is true unless an
  earlier reduction has thrown; \<open>memo\<close> is that string.  Numbers are printed as the host
  prints integers.
\<close>

fun show_nat :: "nat \<Rightarrow> string" where
  "show_nat n =
     (if n < 10 then [''0123456789'' ! n]
      else show_nat (n div 10) @ [''0123456789'' ! (n mod 10)])"

declare show_nat.simps [simp del]

definition show_int :: "int \<Rightarrow> string" where
  "show_int i = (if i < 0 then ''-'' @ show_nat (nat (- i)) else show_nat (nat i))"

fun memo :: "term \<Rightarrow> string" where
  "memo (Var index) = ''^'' @ show_int index"
| "memo Typ = ''ty''"
| "memo (AllT name bind body eras) = ''al'' @ (if eras then ''~'' else []) @ memo bind @ memo body"
| "memo (Lam name bind body eras) = ''lm'' @ (if eras then ''~'' else []) @ memo body"
| "memo (App func argm eras) = ''ap'' @ (if eras then ''~'' else []) @ memo func @ memo argm"
| "memo (Slf name type) = ''sf'' @ memo type"
| "memo (New type expr) = memo expr"
| "memo (Use expr) = memo expr"
| "memo Num = ''wd''"
| "memo (Val numb) = ''['' @ show_int numb @ '']''"
| "memo (Op1 func num0 num1) = ''o1'' @ func @ memo num0 @ memo num1"
| "memo (Op2 func num0 num1) = ''o2'' @ func @ memo num0 @ memo num1"
| "memo (Ite cond if_t if_f) = ''ie'' @ memo cond @ memo if_t @ memo if_f"
| "memo (Ann type expr done) = memo expr"
| "memo (Log msge expr) = memo expr"
| "memo (Hol name) = ''{?'' @ name @ ''?}''"
| "memo (Ref name eras) = ''{'' @ name @ ''}''"

subsection \<open>The search tree\<close>

text \<open>
  The nodes \<^verbatim>\<open>Eqs\<close>, \<^verbatim>\<open>Bop\<close> and \<^verbatim>\<open>Val\<close> local to \<^verbatim>\<open>equal\<close>; the last is \<open>Leaf\<close> here.
  \<^verbatim>\<open>And(x, y)\<close> is \<^verbatim>\<open>Bop(false, x, y)\<close>.
\<close>

datatype node = Eqs "term" "term" int | Bop bool node node | Leaf bool

abbreviation And :: "node \<Rightarrow> node \<Rightarrow> node" where
  "And x y \<equiv> Bop False x y"

definition eqs_opts :: "holes \<Rightarrow> int \<Rightarrow> opts" where
  \<comment> \<open>\<^verbatim>\<open>{ weak: 1, holes: opts.holes, depth: d }\<close>\<close>
  "eqs_opts hs d =
     \<lparr>weak = True, no_app = False, no_op1 = False, no_op2 = False, no_ite = False,
      no_ref = False, no_hol = False, no_use = False, no_ann = False, holes = hs, depth = d\<rparr>"

definition same_heads :: "term \<Rightarrow> term \<Rightarrow> int \<Rightarrow> node" where
  \<comment> \<open>the \<^verbatim>\<open>switch (ay[0])\<close> that builds \<^verbatim>\<open>y\<close>; \<open>Hol\<close> and \<open>Ref\<close> have no case\<close>
  "same_heads a_y b_y d =
     (case a_y of
        Var i \<Rightarrow> (case b_y of Var j \<Rightarrow> Leaf (i = j) | _ \<Rightarrow> Leaf False)
      | Typ \<Rightarrow> (case b_y of Typ \<Rightarrow> Leaf True | _ \<Rightarrow> Leaf False)
      | AllT aname abind abody aeras \<Rightarrow>
          (case b_y of
             AllT bname bbind bbody beras \<Rightarrow>
               And (And (Eqs abind bbind d) (Eqs abody bbody (d + 1))) (Leaf (aeras = beras))
           | _ \<Rightarrow> Leaf False)
      | Lam aname abind abody aeras \<Rightarrow>
          (case b_y of
             Lam bname bbind bbody beras \<Rightarrow>
               And (Eqs abody bbody (d + 1)) (Leaf (aeras = beras))
           | _ \<Rightarrow> Leaf False)
      | App afunc aargm aeras \<Rightarrow>
          (case b_y of
             App bfunc bargm beras \<Rightarrow>
               And (And (Eqs afunc bfunc d) (Eqs aargm bargm d)) (Leaf (aeras = beras))
           | _ \<Rightarrow> Leaf False)
      | Num \<Rightarrow> (case b_y of Num \<Rightarrow> Leaf True | _ \<Rightarrow> Leaf False)
      | Val anumb \<Rightarrow> (case b_y of Val bnumb \<Rightarrow> Leaf (anumb = bnumb) | _ \<Rightarrow> Leaf False)
      | Op1 afunc anum0 anum1 \<Rightarrow>
          \<comment> \<open>the last leaf compares the number of \<^verbatim>\<open>ay[1].num1\<close> with itself\<close>
          (case b_y of
             Op1 bfunc bnum0 bnum1 \<Rightarrow>
               And (Leaf (afunc = bfunc)) (And (Eqs anum0 bnum0 d) (Leaf True))
           | _ \<Rightarrow> Leaf False)
      | Op2 afunc anum0 anum1 \<Rightarrow>
          (case b_y of
             Op2 bfunc bnum0 bnum1 \<Rightarrow>
               And (Leaf (afunc = bfunc)) (And (Eqs anum0 bnum0 d) (Eqs anum1 bnum1 d))
           | _ \<Rightarrow> Leaf False)
      | Ite acond aif_t aif_f \<Rightarrow>
          (case b_y of
             Ite bcond bif_t bif_f \<Rightarrow> And (Eqs acond bcond d) (Eqs aif_t bif_t d)
           | _ \<Rightarrow> Leaf False)
      | Slf aname atype \<Rightarrow>
          (case b_y of Slf bname btype \<Rightarrow> Eqs atype btype (d + 1) | _ \<Rightarrow> Leaf False)
      | New atype aexpr \<Rightarrow>
          (case b_y of New btype bexpr \<Rightarrow> Eqs aexpr bexpr d | _ \<Rightarrow> Leaf False)
      | Use aexpr \<Rightarrow>
          (case b_y of Use bexpr \<Rightarrow> Eqs aexpr bexpr d | _ \<Rightarrow> Leaf False)
      | Log amsge aexpr \<Rightarrow>
          (case b_y of Log bmsge bexpr \<Rightarrow> Eqs aexpr bexpr d | _ \<Rightarrow> Leaf False)
      | Ann atype aexpr adone \<Rightarrow>
          (case b_y of Ann btype bexpr bdone \<Rightarrow> Eqs aexpr bexpr d | _ \<Rightarrow> Leaf False)
      | Hol aname \<Rightarrow> Leaf False
      | Ref aname aeras \<Rightarrow> Leaf False)"

definition hol_name :: "term \<Rightarrow> string option" where
  "hol_name t = (case t of Hol name \<Rightarrow> Some name | _ \<Rightarrow> None)"

definition ref_name :: "term \<Rightarrow> string option" where
  "ref_name t = (case t of Ref name eras \<Rightarrow> Some name | _ \<Rightarrow> None)"

definition app_parts :: "term \<Rightarrow> (term \<times> term) option" where
  "app_parts t = (case t of App func argm eras \<Rightarrow> Some (func, argm) | _ \<Rightarrow> None)"

definition set_value :: "string \<Rightarrow> hole_value \<Rightarrow> holes \<Rightarrow> holes" where
  \<comment> \<open>\<^verbatim>\<open>opts.holes[name].value = v\<close>, for a registered name\<close>
  "set_value name v hs = (case hs name of Some h \<Rightarrow> hs(name \<mapsto> h\<lparr>hvalue := v\<rparr>) | None \<Rightarrow> hs)"

text \<open>
  \<open>fast_path\<close> builds \<^verbatim>\<open>x\<close>, the node tried before the structural comparison, and is where
  holes are assigned.  \<open>eq\<close> is the nested call \<^verbatim>\<open>equal(hole_v, expr_s, hole_d, defs, opts)\<close>,
  which works on the same registry.
\<close>

definition fast_path ::
  "(term \<Rightarrow> term \<Rightarrow> int \<Rightarrow> holes \<Rightarrow> (bool, holes) out) \<Rightarrow>
   term \<Rightarrow> term \<Rightarrow> int \<Rightarrow> holes \<Rightarrow> (node option, holes) out" where
  "fast_path eq a_x b_x d hs =
     (if ref_name a_x \<noteq> None \<and> ref_name b_x \<noteq> None \<and> ref_name a_x = ref_name b_x then
        Ok (Some (Leaf True)) hs
      else if hol_name a_x \<noteq> None \<or> hol_name b_x \<noteq> None then
        (let name = (case hol_name a_x of Some n \<Rightarrow> n | None \<Rightarrow> the (hol_name b_x));
             expr = (if hol_name a_x \<noteq> None then b_x else a_x)
         in case hs name of
              None \<Rightarrow> Ok None hs
            | Some h \<Rightarrow>
                (let expr_s = shift expr (hdepth h - d) 0;
                     hole_d = hdepth h
                 in case hvalue h of
                      Unset \<Rightarrow> Ok (Some (Leaf True)) (set_value name (Assigned expr_s) hs)
                    | Conflict \<Rightarrow> Ok (Some (Leaf True)) hs
                    | Assigned hole_v \<Rightarrow>
                        obind (eq hole_v expr_s hole_d) (\<lambda>same hs'.
                          if \<not> same then Ok (Some (Leaf True)) (set_value name Conflict hs')
                          else Ok (Some (Leaf True)) hs') hs))
      else
        (case (app_parts a_x, app_parts b_x) of
           (Some (afunc, aargm), Some (bfunc, bargm)) \<Rightarrow>
             Ok (Some (And (Eqs afunc bfunc d) (Eqs aargm bargm d))) hs
         | _ \<Rightarrow> Ok None hs))"

text \<open>
  \<open>step_with red eq defs\<close> is \<^verbatim>\<open>step\<close>, given the reducer \<open>red\<close> and the nested call \<open>eq\<close>;
  it returns the new node, and the registry after the assignments made on the way.
\<close>

fun step_with ::
  "(string + term \<Rightarrow> defs \<Rightarrow> opts \<Rightarrow> term res) \<Rightarrow>
   (term \<Rightarrow> term \<Rightarrow> int \<Rightarrow> holes \<Rightarrow> (bool, holes) out) \<Rightarrow>
   defs \<Rightarrow> node \<Rightarrow> holes \<Rightarrow> (node, holes) out" where
  "step_with red eq defs (Eqs a b d) hs =
     (let opt = eqs_opts hs d in
      obind (lift (red (Inr a) [] opt)) (\<lambda>a_x.
      obind (lift (red (Inr b) [] opt)) (\<lambda>b_x.
      obind (lift (red (Inr a) defs opt)) (\<lambda>a_y.
      obind (lift (red (Inr b) defs opt)) (\<lambda>b_y.
      if memo a = memo b \<or> memo a_x = memo b_x \<or> memo a_y = memo b_y then
        Ok (Leaf True)
      else
        obind (fast_path eq a_x b_x d) (\<lambda>x.
        let y = same_heads a_y b_y d in
        Ok (case x of Some x' \<Rightarrow> Bop True x' y | None \<Rightarrow> y)))))) hs)"
| "step_with red eq defs (Bop v x y) hs =
     (case x of
        Leaf xv \<Rightarrow> Ok (if xv = v then Leaf v else y) hs
      | _ \<Rightarrow>
          (case y of
             Leaf yv \<Rightarrow> Ok (if yv = v then Leaf v else x) hs
           | _ \<Rightarrow>
               obind (step_with red eq defs x) (\<lambda>X.
               obind (step_with red eq defs y) (\<lambda>Y.
               Ok (Bop v X Y))) hs))"
| "step_with red eq defs (Leaf v) hs = Ok (Leaf v) hs"

text \<open>
  The loop \<^verbatim>\<open>while (tree[0] !== "Val") tree = step(tree)\<close>, for at most \<open>k\<close> steps.
\<close>

primrec search ::
  "(node \<Rightarrow> holes \<Rightarrow> (node, holes) out) \<Rightarrow> nat \<Rightarrow> node \<Rightarrow> holes \<Rightarrow> (bool, holes) out" where
  "search stp 0 = (\<lambda>tree hs. case tree of Leaf v \<Rightarrow> Ok v hs | _ \<Rightarrow> Halted Out_of_fuel)"
| "search stp (Suc k) = (\<lambda>tree hs.
     case tree of
       Leaf v \<Rightarrow> Ok v hs
     | _ \<Rightarrow> obind (stp tree) (search stp k) hs)"

text \<open>
  \<open>equal_fuel n a b d defs hs\<close> is \<^verbatim>\<open>equal(a, b, d, defs, {holes: hs})\<close> with fuel \<open>n\<close> for
  the nesting of \<^verbatim>\<open>equal\<close>, for each reduction and for the number of steps; it returns the
  answer and the registry, or the error thrown and the registry at that moment.  \<open>step\<close> is
  a step of the search at that fuel.
\<close>

primrec equal_fuel ::
  "nat \<Rightarrow> term \<Rightarrow> term \<Rightarrow> int \<Rightarrow> defs \<Rightarrow> holes \<Rightarrow> (bool, holes) out" where
  "equal_fuel 0 = (\<lambda>a b d defs hs. Halted Out_of_fuel)"
| "equal_fuel (Suc n) = (\<lambda>a b d defs hs.
     search (step_with (reduce_fuel n) (\<lambda>a' b' d'. equal_fuel n a' b' d' defs) defs)
       n (Eqs (erase a) (erase b) d) hs)"

definition step :: "nat \<Rightarrow> defs \<Rightarrow> node \<Rightarrow> holes \<Rightarrow> (node, holes) out" where
  "step n defs = step_with (reduce_fuel n) (\<lambda>a b d. equal_fuel n a b d defs) defs"

definition equal :: "term \<Rightarrow> term \<Rightarrow> int \<Rightarrow> defs \<Rightarrow> holes \<Rightarrow> (bool, holes) out \<Rightarrow> bool" where
  "equal a b d defs hs r = (r \<noteq> Halted Out_of_fuel \<and> (\<exists>n. equal_fuel n a b d defs hs = r))"

subsection \<open>The order in which holes settle\<close>

text \<open>
  A hole is \<open>unassigned\<close> when the registry has no term for it.  A registry entry has
  \<open>settled\<close> from one state to the next when it is unchanged or has gone from unset to a
  term.  \<open>holes_monotone\<close> is the order of the specification: an entry stays in the
  registry at its depth; an unset value stays unset or becomes a term, a term stays or
  becomes the conflict mark, and the conflict mark stays.
\<close>

definition unassigned :: "opts \<Rightarrow> string \<Rightarrow> bool" where
  "unassigned opts name =
     (case holes opts name of None \<Rightarrow> True | Some h \<Rightarrow> (case hvalue h of Assigned v \<Rightarrow> False | _ \<Rightarrow> True))"

definition settled :: "hole option \<Rightarrow> hole option \<Rightarrow> bool" where
  "settled e e' =
     (e' = e \<or> (\<exists>h t. e = Some h \<and> hvalue h = Unset \<and> e' = Some (h\<lparr>hvalue := Assigned t\<rparr>)))"

definition settles :: "holes \<Rightarrow> holes \<Rightarrow> bool" where
  "settles hs hs' = (\<forall>name. settled (hs name) (hs' name))"

definition assigns_one :: "holes \<Rightarrow> holes \<Rightarrow> bool" where
  "assigns_one hs hs' =
     (\<exists>name h t. hs name = Some h \<and> hvalue h = Unset \<and> hs' = hs(name \<mapsto> h\<lparr>hvalue := Assigned t\<rparr>))"

definition value_moves :: "hole_value \<Rightarrow> hole_value \<Rightarrow> bool" where
  "value_moves v v' =
     (case v of
        Unset \<Rightarrow> (case v' of Conflict \<Rightarrow> False | _ \<Rightarrow> True)
      | Assigned t \<Rightarrow> v' = Assigned t \<or> v' = Conflict
      | Conflict \<Rightarrow> v' = Conflict)"

definition holes_monotone :: "holes \<Rightarrow> holes \<Rightarrow> bool" where
  "holes_monotone hs hs' =
     (\<forall>name. case hs name of
                None \<Rightarrow> hs' name = None
              | Some h \<Rightarrow>
                  (case hs' name of
                     None \<Rightarrow> False
                   | Some h' \<Rightarrow> hdepth h' = hdepth h \<and> value_moves (hvalue h) (hvalue h')))"

section \<open>The type checker\<close>

subsection \<open>Terms with flags that are assigned to\<close>

text \<open>
  \<^verbatim>\<open>typecheck\<close> sets and resets the \<^verbatim>\<open>done\<close> field of the \<open>Ann\<close> objects it visits, and the
  same object is reached from several places: a definition is in \<^verbatim>\<open>defs\<close> while it is
  checked, the type of an application holds the argument, the type of an annotation is
  the annotation's own field.  The checker's terms are therefore \<open>hterm\<close>, whose \<open>Ann\<close>
  nodes carry the address of their flag in the state; two nodes with the same address
  are the same object.  Every construction of an \<open>Ann\<close> takes a new address.  \<open>read\<close>
  gives the term as a value with the flags of the moment, and \<open>alloc\<close> builds the
  objects of a term that \<^verbatim>\<open>shift\<close>, \<^verbatim>\<open>subst\<close> or \<^verbatim>\<open>quote\<close> has just constructed.
\<close>

type_synonym hterm = "nat gterm"

type_synonym hctx = "nat gctx"

record tc_state =
  flags :: "nat \<Rightarrow> bool"
  fresh :: nat
  tc_holes :: holes
  tc_types :: "string \<rightharpoonup> hterm"
  tc_defs :: "(string \<times> hterm) list"
  memo_on :: bool

definition read :: "tc_state \<Rightarrow> hterm \<Rightarrow> term" where
  "read s = map_gterm (flags s)"

definition read_ctx :: "tc_state \<Rightarrow> hctx \<Rightarrow> ctx" where
  "read_ctx s = map_gctx (flags s)"

definition read_defs :: "tc_state \<Rightarrow> defs" where
  "read_defs s = map (\<lambda>(name, t). (name, read s t)) (tc_defs s)"

definition set_flag :: "nat \<Rightarrow> bool \<Rightarrow> tc_state \<Rightarrow> tc_state" where
  "set_flag a b s = s\<lparr>flags := (flags s)(a := b)\<rparr>"

definition new_cell :: "bool \<Rightarrow> tc_state \<Rightarrow> nat \<times> tc_state" where
  "new_cell b s = (fresh s, s\<lparr>flags := (flags s)(fresh s := b), fresh := Suc (fresh s)\<rparr>)"

fun alloc :: "term \<Rightarrow> tc_state \<Rightarrow> hterm \<times> tc_state" where
  "alloc (Var index) s = (Var index, s)"
| "alloc Typ s = (Typ, s)"
| "alloc (AllT name bind body eras) s =
     (case alloc bind s of (bind', s1) \<Rightarrow>
      case alloc body s1 of (body', s2) \<Rightarrow> (AllT name bind' body' eras, s2))"
| "alloc (Lam name bind body eras) s =
     (case (case bind of
              None \<Rightarrow> (None, s)
            | Some b \<Rightarrow> (case alloc b s of (b', s') \<Rightarrow> (Some b', s'))) of (bind', s1) \<Rightarrow>
      case alloc body s1 of (body', s2) \<Rightarrow> (Lam name bind' body' eras, s2))"
| "alloc (App func argm eras) s =
     (case alloc func s of (func', s1) \<Rightarrow>
      case alloc argm s1 of (argm', s2) \<Rightarrow> (App func' argm' eras, s2))"
| "alloc (Slf name type) s = (case alloc type s of (type', s1) \<Rightarrow> (Slf name type', s1))"
| "alloc (New type expr) s =
     (case alloc type s of (type', s1) \<Rightarrow>
      case alloc expr s1 of (expr', s2) \<Rightarrow> (New type' expr', s2))"
| "alloc (Use expr) s = (case alloc expr s of (expr', s1) \<Rightarrow> (Use expr', s1))"
| "alloc Num s = (Num, s)"
| "alloc (Val numb) s = (Val numb, s)"
| "alloc (Op1 func num0 num1) s =
     (case alloc num0 s of (num0', s1) \<Rightarrow>
      case alloc num1 s1 of (num1', s2) \<Rightarrow> (Op1 func num0' num1', s2))"
| "alloc (Op2 func num0 num1) s =
     (case alloc num0 s of (num0', s1) \<Rightarrow>
      case alloc num1 s1 of (num1', s2) \<Rightarrow> (Op2 func num0' num1', s2))"
| "alloc (Ite cond if_t if_f) s =
     (case alloc cond s of (cond', s1) \<Rightarrow>
      case alloc if_t s1 of (if_t', s2) \<Rightarrow>
      case alloc if_f s2 of (if_f', s3) \<Rightarrow> (Ite cond' if_t' if_f', s3))"
| "alloc (Ann type expr done) s =
     (case alloc type s of (type', s1) \<Rightarrow>
      case alloc expr s1 of (expr', s2) \<Rightarrow>
      case new_cell done s2 of (a, s3) \<Rightarrow> (Ann type' expr' a, s3))"
| "alloc (Log msge expr) s =
     (case alloc msge s of (msge', s1) \<Rightarrow>
      case alloc expr s1 of (expr', s2) \<Rightarrow> (Log msge' expr', s2))"
| "alloc (Hol name) s = (Hol name, s)"
| "alloc (Ref name eras) s = (Ref name eras, s)"

definition hshift :: "hterm \<Rightarrow> int \<Rightarrow> int \<Rightarrow> tc_state \<Rightarrow> hterm \<times> tc_state" where
  \<comment> \<open>\<^verbatim>\<open>shift\<close> copies every node\<close>
  "hshift t i d s = alloc (shift (read s t) i d) s"

text \<open>
  \<^verbatim>\<open>subst\<close> copies the nodes of the term and puts the object \<^verbatim>\<open>v\<close> itself, or the one copy
  of it shifted for the binders passed, at every occurrence of the variable.
\<close>

fun hsubst :: "hterm \<Rightarrow> hterm \<Rightarrow> int \<Rightarrow> tc_state \<Rightarrow> hterm \<times> tc_state" where
  "hsubst (Var index) v d s =
     (if d = index then (v, s) else (Var (index - (if index > d then 1 else 0)), s))"
| "hsubst Typ v d s = (Typ, s)"
| "hsubst (AllT name bind body eras) v d s =
     (case hsubst bind v d s of (bind', s1) \<Rightarrow>
      case hshift v 1 0 s1 of (v', s2) \<Rightarrow>
      case hsubst body v' (d + 1) s2 of (body', s3) \<Rightarrow> (AllT name bind' body' eras, s3))"
| "hsubst (Lam name bind body eras) v d s =
     (case (case bind of
              None \<Rightarrow> (None, s)
            | Some b \<Rightarrow> (case hsubst b v d s of (b', s') \<Rightarrow> (Some b', s'))) of (bind', s1) \<Rightarrow>
      case hshift v 1 0 s1 of (v', s2) \<Rightarrow>
      case hsubst body v' (d + 1) s2 of (body', s3) \<Rightarrow> (Lam name bind' body' eras, s3))"
| "hsubst (App func argm eras) v d s =
     (case hsubst func v d s of (func', s1) \<Rightarrow>
      case hsubst argm v d s1 of (argm', s2) \<Rightarrow> (App func' argm' eras, s2))"
| "hsubst Num v d s = (Num, s)"
| "hsubst (Val numb) v d s = (Val numb, s)"
| "hsubst (Op1 func num0 num1) v d s =
     (case hsubst num0 v d s of (num0', s1) \<Rightarrow>
      case hsubst num1 v d s1 of (num1', s2) \<Rightarrow> (Op1 func num0' num1', s2))"
| "hsubst (Op2 func num0 num1) v d s =
     (case hsubst num0 v d s of (num0', s1) \<Rightarrow>
      case hsubst num1 v d s1 of (num1', s2) \<Rightarrow> (Op2 func num0' num1', s2))"
| "hsubst (Ite cond if_t if_f) v d s =
     (case hsubst cond v d s of (cond', s1) \<Rightarrow>
      case hsubst if_t v d s1 of (if_t', s2) \<Rightarrow>
      case hsubst if_f v d s2 of (if_f', s3) \<Rightarrow> (Ite cond' if_t' if_f', s3))"
| "hsubst (Slf name type) v d s =
     (case hshift v 1 0 s of (v', s1) \<Rightarrow>
      case hsubst type v' (d + 1) s1 of (type', s2) \<Rightarrow> (Slf name type', s2))"
| "hsubst (New type expr) v d s =
     (case hsubst type v d s of (type', s1) \<Rightarrow>
      case hsubst expr v d s1 of (expr', s2) \<Rightarrow> (New type' expr', s2))"
| "hsubst (Use expr) v d s = (case hsubst expr v d s of (expr', s1) \<Rightarrow> (Use expr', s1))"
| "hsubst (Ann type expr a) v d s =
     (case hsubst type v d s of (type', s1) \<Rightarrow>
      case hsubst expr v d s1 of (expr', s2) \<Rightarrow>
      case new_cell (flags s2 a) s2 of (a', s3) \<Rightarrow> (Ann type' expr' a', s3))"
| "hsubst (Log msge expr) v d s =
     (case hsubst msge v d s of (msge', s1) \<Rightarrow>
      case hsubst expr v d s1 of (expr', s2) \<Rightarrow> (Log msge' expr', s2))"
| "hsubst (Hol name) v d s = (Hol name, s)"
| "hsubst (Ref name eras) v d s = (Ref name eras, s)"

subsection \<open>Calls into the reducer and the equality engine\<close>

text \<open>
  A function of the checker takes the state and gives an \<open>out\<close>.  \<^verbatim>\<open>reduce\<close> clears the
  global \<^verbatim>\<open>MEMO\<close> when it starts and sets it again between the reduction and the
  read-back.  After a call that throws, the flag is therefore cleared when the reduction
  threw and set when the read-back threw; \<open>reduce_memo\<close> is the flag such a call leaves.
\<close>

type_synonym 'a tc = "tc_state \<Rightarrow> ('a, tc_state) out"

definition treturn :: "'a \<Rightarrow> 'a tc" where
  "treturn x s = Ok x s"

definition tthrow :: "error \<Rightarrow> 'a tc" where
  "tthrow e s = Err e s"

definition tcatch :: "'a tc \<Rightarrow> (error \<Rightarrow> 'a tc) \<Rightarrow> 'a tc" where
  "tcatch m handler s =
     (case m s of Ok x s' \<Rightarrow> Ok x s' | Err e s' \<Rightarrow> handler e s' | Halted h \<Rightarrow> Halted h)"

definition reduce_memo :: "nat \<Rightarrow> term \<Rightarrow> defs \<Rightarrow> opts \<Rightarrow> bool" where
  "reduce_memo n t defs opts =
     (case reduce_sem opts defs n (unquote t []) [] of Ret reduced \<Rightarrow> True | _ \<Rightarrow> False)"

definition run_reduce :: "term res \<Rightarrow> bool \<Rightarrow> term tc" where
  "run_reduce r memo_thrown s =
     (case r of
        Ret x \<Rightarrow> Ok x (s\<lparr>memo_on := True\<rparr>)
      | Throw e \<Rightarrow> Err e (s\<lparr>memo_on := memo_thrown\<rparr>)
      | Halt h \<Rightarrow> Halted h)"

definition reduce_here :: "nat \<Rightarrow> hterm option \<Rightarrow> bool \<Rightarrow> opts \<Rightarrow> term tc" where
  \<comment> \<open>\<^verbatim>\<open>reduce(term, defs, opts)\<close> or \<^verbatim>\<open>reduce(term, {}, opts)\<close>; reducing \<^verbatim>\<open>null\<close> throws\<close>
  "reduce_here n trm with_defs opts s =
     (case trm of
        None \<Rightarrow> Err Host_TypeError (s\<lparr>memo_on := False\<rparr>)
      | Some t \<Rightarrow>
          (let defs = (if with_defs then read_defs s else [])
           in run_reduce (reduce_fuel n (Inr (read s t)) defs opts)
                (reduce_memo n (read s t) defs opts) s))"

definition talloc :: "term \<Rightarrow> hterm tc" where
  "talloc t s = (case alloc t s of (h, s') \<Rightarrow> Ok h s')"

definition weak_normal :: "nat \<Rightarrow> hterm option \<Rightarrow> nat \<Rightarrow> hterm tc" where
  \<comment> \<open>\<^verbatim>\<open>reduce(term, defs, { holes, weak: true, depth })\<close>\<close>
  "weak_normal n trm dep s =
     obind (reduce_here n trm True (eqs_opts (tc_holes s) (int dep))) talloc s"

definition display_opts :: "holes \<Rightarrow> opts" where
  \<comment> \<open>\<^verbatim>\<open>{ holes, weak: false }\<close>\<close>
  "display_opts hs = default_opts\<lparr>holes := hs\<rparr>"

definition display_normal :: "nat \<Rightarrow> hterm option \<Rightarrow> term tc" where
  \<comment> \<open>\<^verbatim>\<open>reduce(term, {}, { holes, weak: false })\<close>\<close>
  "display_normal n trm s = reduce_here n trm False (display_opts (tc_holes s)) s"

definition subst_holes_opts :: "holes \<Rightarrow> int \<Rightarrow> opts" where
  "subst_holes_opts hs d =
     \<lparr>weak = False, no_app = True, no_op1 = True, no_op2 = True, no_ite = False,
      no_ref = True, no_hol = False, no_use = True, no_ann = True, holes = hs, depth = d\<rparr>"

definition subst_holes :: "nat \<Rightarrow> hterm option \<Rightarrow> int \<Rightarrow> hterm tc" where
  "subst_holes n trm dep s =
     obind (reduce_here n trm False (subst_holes_opts (tc_holes s) dep)) talloc s"

definition print :: "nat \<Rightarrow> hterm option \<Rightarrow> unit tc" where
  \<comment> \<open>\<^verbatim>\<open>print\<close> normalises the term and formats it; only the normalisation can fail\<close>
  "print n trm = obind (display_normal n trm) (\<lambda>shown. treturn ())"

fun ctx_str :: "nat \<Rightarrow> hctx \<Rightarrow> unit tc" where
  "ctx_str n Ctx_new = treturn ()"
| "ctx_str n (Ctx_ext name trm type eras rest) =
     obind (print n (Some type)) (\<lambda>shown. ctx_str n rest)"

definition do_error :: "nat \<Rightarrow> check_error \<Rightarrow> hterm \<Rightarrow> hctx \<Rightarrow> 'a tc" where
  "do_error n kind trm ctx =
     obind (print n (Some trm)) (\<lambda>shown.
     obind (ctx_str n ctx) (\<lambda>shown.
     tthrow (Check kind)))"

text \<open>
  \<^verbatim>\<open>equal\<close> erases both terms at its entry.  When \<^verbatim>\<open>MEMO\<close> is cleared there, the two
  erased terms have the hash \<^verbatim>\<open>null\<close>, and the first step answers \<^verbatim>\<open>true\<close> once its four
  reductions have returned.  A throw inside \<^verbatim>\<open>equal\<close> comes from one of its reductions;
  \<open>run_equal\<close> takes \<^verbatim>\<open>MEMO\<close> as cleared after it, which is what a throw during the
  reduction proper leaves.
\<close>

definition equal_unhashed :: "nat \<Rightarrow> term \<Rightarrow> term \<Rightarrow> int \<Rightarrow> defs \<Rightarrow> holes \<Rightarrow> (bool, holes) out" where
  "equal_unhashed n a b d defs hs =
     (case n of
        0 \<Rightarrow> Halted Out_of_fuel
      | Suc m \<Rightarrow>
          (case m of
             0 \<Rightarrow> Halted Out_of_fuel
           | Suc k \<Rightarrow>
               (let opt = eqs_opts hs d in
                obind (lift (reduce_fuel m (Inr (erase a)) [] opt)) (\<lambda>a_x.
                obind (lift (reduce_fuel m (Inr (erase b)) [] opt)) (\<lambda>b_x.
                obind (lift (reduce_fuel m (Inr (erase a)) defs opt)) (\<lambda>a_y.
                obind (lift (reduce_fuel m (Inr (erase b)) defs opt)) (\<lambda>b_y.
                Ok True)))) hs)))"

definition run_equal :: "nat \<Rightarrow> hterm option \<Rightarrow> hterm \<Rightarrow> nat \<Rightarrow> bool tc" where
  \<comment> \<open>\<^verbatim>\<open>equal(a, b, ctx.length, defs, { holes })\<close>\<close>
  "run_equal n a b dep s =
     (case a of
        None \<Rightarrow> Err Host_TypeError s
      | Some a' \<Rightarrow>
          (case (if memo_on s then equal_fuel else equal_unhashed)
                  n (read s a') (read s b) (int dep) (read_defs s) (tc_holes s) of
             Ok same hs \<Rightarrow> Ok same (s\<lparr>tc_holes := hs, memo_on := True\<rparr>)
           | Err e hs \<Rightarrow> Err e (s\<lparr>tc_holes := hs, memo_on := False\<rparr>)
           | Halted h \<Rightarrow> Halted h))"

definition do_match :: "nat \<Rightarrow> hterm option \<Rightarrow> hterm \<Rightarrow> hterm \<Rightarrow> hctx \<Rightarrow> unit tc" where
  "do_match n a b trm ctx =
     obind (run_equal n a b (ctx_length ctx)) (\<lambda>same.
     if same then treturn ()
     else
       obind (print n a) (\<lambda>shown.
       obind (print n (Some b)) (\<lambda>shown.
       do_error n Type_mismatch trm ctx)))"

definition register_hole :: "hctx \<Rightarrow> string \<Rightarrow> unit tc" where
  "register_hole ctx name s =
     Ok () (if tc_holes s name = None
            then s\<lparr>tc_holes := (tc_holes s)(name \<mapsto> \<lparr>hdepth = int (ctx_length ctx), hvalue = Unset\<rparr>)\<rparr>
            else s)"

definition hctx_get :: "int \<Rightarrow> hctx \<Rightarrow> nat got option tc" where
  \<comment> \<open>\<^verbatim>\<open>ctx_get\<close>; the two terms of the frame returned are new copies\<close>
  "hctx_get i ctx s =
     (case ctx_get i (read_ctx s ctx) of
        Ret None \<Rightarrow> Ok None s
      | Ret (Some g) \<Rightarrow>
          (case alloc (got_term g) s of (trm', s1) \<Rightarrow>
           case (case got_type g of
                   None \<Rightarrow> (None, s1)
                 | Some t \<Rightarrow> (case alloc t s1 of (t', s2) \<Rightarrow> (Some t', s2))) of (type', s3) \<Rightarrow>
           Ok (Some \<lparr>got_name = got_name g, got_term = trm', got_type = type',
                     got_eras = got_eras g\<rparr>) s3)
      | Throw e \<Rightarrow> Err e s
      | Halt h \<Rightarrow> Halted h)"

definition new_ann :: "hterm \<Rightarrow> hterm \<Rightarrow> bool \<Rightarrow> hterm tc" where
  \<comment> \<open>\<^verbatim>\<open>Ann(type, expr, done)\<close>\<close>
  "new_ann type expr done s = (case new_cell done s of (a, s') \<Rightarrow> Ok (Ann type expr a) s')"

definition tsubst :: "hterm \<Rightarrow> hterm \<Rightarrow> int \<Rightarrow> hterm tc" where
  "tsubst t v d s = (case hsubst t v d s of (r, s') \<Rightarrow> Ok r s')"

subsection \<open>The cases of \<^verbatim>\<open>typecheck\<close>\<close>

text \<open>
  One definition for each case of the \<^verbatim>\<open>switch\<close>.  \<open>rec\<close> is the recursive call
  \<^verbatim>\<open>typecheck(term, expect, ctx, erased)\<close>; its term and the type it returns may be
  \<^verbatim>\<open>null\<close>.  \<open>trm\<close> is the term being checked, which \<^verbatim>\<open>do_error\<close> prints.
\<close>

type_synonym checker = "hterm option \<Rightarrow> hterm option \<Rightarrow> hctx \<Rightarrow> bool \<Rightarrow> hterm option tc"

definition check_var :: "nat \<Rightarrow> int \<Rightarrow> hterm \<Rightarrow> hctx \<Rightarrow> bool \<Rightarrow> hterm option tc" where
  "check_var n index trm ctx erased =
     obind (hctx_get index ctx) (\<lambda>got.
     case got of
       Some g \<Rightarrow>
         if got_eras g = Some True \<and> \<not> erased then do_error n Erased_variable_used trm ctx
         else treturn (got_type g)
     | None \<Rightarrow> do_error n Unbound_variable trm ctx)"

definition check_all ::
  "nat \<Rightarrow> checker \<Rightarrow> string \<Rightarrow> hterm \<Rightarrow> hterm \<Rightarrow> bool \<Rightarrow> hterm option \<Rightarrow> hterm \<Rightarrow> hctx \<Rightarrow>
   hterm option tc" where
  "check_all n rec name bind body eras expect_nf trm ctx =
     obind (case expect_nf of
              None \<Rightarrow> treturn ()
            | Some e \<Rightarrow>
                if e \<noteq> Typ then
                  obind (print n (Some (AllT ''x'' (Ref ''A'' False) (Ref ''B'' False) False))) (\<lambda>shown.
                  obind (print n (Some Typ)) (\<lambda>shown.
                  obind (print n (Some e)) (\<lambda>shown.
                  do_error n Forall_not_a_type trm ctx)))
                else treturn ()) (\<lambda>checked.
     obind (rec (Some bind) (Some Typ) ctx True) (\<lambda>bind_t.
     obind (rec (Some body) (Some Typ) (Ctx_ext name None bind eras ctx) True) (\<lambda>body_t.
     treturn (Some Typ))))"

definition forall_parts :: "hterm option \<Rightarrow> (hterm \<times> hterm) option" where
  \<comment> \<open>\<^verbatim>\<open>expect_nf && expect_nf[0] === "All"\<close>, with the two fields read in that case\<close>
  "forall_parts expect_nf =
     (case expect_nf of Some (AllT name bind body eras) \<Rightarrow> Some (bind, body) | _ \<Rightarrow> None)"

definition check_lam ::
  "nat \<Rightarrow> checker \<Rightarrow> string \<Rightarrow> hterm option \<Rightarrow> hterm \<Rightarrow> bool \<Rightarrow> hterm option \<Rightarrow> hterm \<Rightarrow>
   hctx \<Rightarrow> bool \<Rightarrow> hterm option tc" where
  "check_lam n rec name bind body eras expect_nf trm ctx erased =
     (let bind_v = (case forall_parts expect_nf of Some (ebind, ebody) \<Rightarrow> Some ebind | None \<Rightarrow> bind)
      in case bind_v of
           None \<Rightarrow>
             (case expect_nf of
                None \<Rightarrow> do_error n Lambda_not_annotated trm ctx
              | Some e \<Rightarrow>
                  obind (print n (Some (Lam ''x'' None (Ref ''f'' False) False))) (\<lambda>shown.
                  obind (print n (Some (AllT ''x'' (Ref ''A'' False) (Ref ''B'' False) False))) (\<lambda>shown.
                  obind (print n (Some e)) (\<lambda>shown.
                  do_error n Lambda_not_a_function trm ctx))))
         | Some bv \<Rightarrow>
             obind (rec (Some bv) (Some Typ) ctx True) (\<lambda>bind_t.
             let ex_ctx = Ctx_ext name None bv eras ctx in
             obind (rec (Some body) (map_option snd (forall_parts expect_nf)) ex_ctx erased) (\<lambda>body_t.
             obind (rec body_t (Some Typ) ex_ctx True) (\<lambda>body_T.
             case body_t of
               None \<Rightarrow> tthrow Host_TypeError
             | Some bt \<Rightarrow> treturn (Some (AllT name bv bt eras))))))"

definition check_app ::
  "nat \<Rightarrow> checker \<Rightarrow> hterm \<Rightarrow> hterm \<Rightarrow> bool \<Rightarrow> hterm \<Rightarrow> hctx \<Rightarrow> bool \<Rightarrow> hterm option tc" where
  "check_app n rec func argm eras trm ctx erased =
     obind (rec (Some func) None ctx erased) (\<lambda>func_t.
     obind (weak_normal n func_t (ctx_length ctx)) (\<lambda>func_nf.
     case func_nf of
       AllT fname fbind fbody feras \<Rightarrow>
         obind (rec (Some argm) (Some fbind) ctx (eras \<or> erased)) (\<lambda>argm_t.
         if feras \<noteq> eras then do_error n Mismatched_erasure trm ctx
         else
           obind (new_ann fbind argm False) (\<lambda>v.
           obind (tsubst fbody v 0) (\<lambda>type.
           treturn (Some type))))
     | _ \<Rightarrow> do_error n Not_a_function trm ctx))"

definition check_op :: "checker \<Rightarrow> hterm \<Rightarrow> hterm \<Rightarrow> hctx \<Rightarrow> bool \<Rightarrow> hterm option tc" where
  "check_op rec num0 num1 ctx erased =
     obind (rec (Some num0) (Some Num) ctx erased) (\<lambda>num0_t.
     obind (rec (Some num1) (Some Num) ctx erased) (\<lambda>num1_t.
     treturn (Some Num)))"

definition check_ite ::
  "nat \<Rightarrow> checker \<Rightarrow> hterm \<Rightarrow> hterm \<Rightarrow> hterm \<Rightarrow> hterm option \<Rightarrow> hterm \<Rightarrow> hctx \<Rightarrow> bool \<Rightarrow>
   hterm option tc" where
  "check_ite n rec cond if_t if_f expect_nf trm ctx erased =
     obind (rec (Some cond) None ctx erased) (\<lambda>cond_t.
     obind (weak_normal n cond_t (ctx_length ctx)) (\<lambda>cond_nf.
     if cond_nf \<noteq> Num then do_error n If_not_numeric trm ctx
     else
       obind (rec (Some if_t) expect_nf ctx erased) (\<lambda>if_t_t.
       obind (rec (Some if_f) if_t_t ctx erased) (\<lambda>if_t_f.
       treturn (case expect_nf of Some e \<Rightarrow> Some e | None \<Rightarrow> if_t_t)))))"

definition check_slf :: "checker \<Rightarrow> string \<Rightarrow> hterm \<Rightarrow> hterm \<Rightarrow> hctx \<Rightarrow> hterm option tc" where
  "check_slf rec name type trm ctx =
     obind (rec (Some type) (Some Typ) (Ctx_ext name None trm False ctx) True) (\<lambda>type_t.
     treturn (Some Typ))"

definition check_new ::
  "nat \<Rightarrow> checker \<Rightarrow> hterm \<Rightarrow> hterm \<Rightarrow> hterm \<Rightarrow> hctx \<Rightarrow> bool \<Rightarrow> hterm option tc" where
  "check_new n rec type expr trm ctx erased =
     obind (weak_normal n (Some type) (ctx_length ctx)) (\<lambda>ttyp.
     case ttyp of
       Slf sname stype \<Rightarrow>
         obind (rec (Some ttyp) None ctx True) (\<lambda>ttyp_t.
         obind (new_ann ttyp trm True) (\<lambda>v.
         obind (tsubst stype v 0) (\<lambda>expected.
         obind (rec (Some expr) (Some expected) ctx erased) (\<lambda>expr_t.
         treturn (Some type)))))
     | _ \<Rightarrow> do_error n New_not_self trm ctx)"

definition check_use ::
  "nat \<Rightarrow> checker \<Rightarrow> hterm \<Rightarrow> hterm \<Rightarrow> hctx \<Rightarrow> bool \<Rightarrow> hterm option tc" where
  "check_use n rec expr trm ctx erased =
     obind (rec (Some expr) None ctx erased) (\<lambda>expr_t.
     obind (weak_normal n expr_t (ctx_length ctx)) (\<lambda>expr_nf.
     case expr_nf of
       Slf sname stype \<Rightarrow> obind (tsubst stype expr 0) (\<lambda>type. treturn (Some type))
     | _ \<Rightarrow> do_error n Use_not_self trm ctx))"

text \<open>
  The case \<^verbatim>\<open>Ann\<close>.  \<open>a\<close> is the address of the flag \<^verbatim>\<open>term[1].done\<close>.
\<close>

definition check_parts :: "checker \<Rightarrow> hterm \<Rightarrow> hterm \<Rightarrow> hctx \<Rightarrow> bool \<Rightarrow> hterm option tc" where
  \<comment> \<open>the two calls inside the \<^verbatim>\<open>try\<close>\<close>
  "check_parts rec type expr ctx erased =
     obind (rec (Some type) (Some Typ) ctx True) (\<lambda>type_t.
     rec (Some expr) (Some type) ctx erased)"

definition check_ann ::
  "checker \<Rightarrow> hterm \<Rightarrow> hterm \<Rightarrow> nat \<Rightarrow> hctx \<Rightarrow> bool \<Rightarrow> hterm option tc" where
  "check_ann rec type expr a ctx erased s =
     (if \<not> flags s a then
        (case check_parts rec type expr ctx erased (set_flag a True s) of
           Ok expr_t s' \<Rightarrow> Ok (Some type) s'
         | Err e s' \<Rightarrow> Err e (set_flag a False s')
         | Halted h \<Rightarrow> Halted h)
      else Ok (Some type) s)"

definition check_log ::
  "bool \<Rightarrow> nat \<Rightarrow> checker \<Rightarrow> hterm \<Rightarrow> hterm \<Rightarrow> hterm option \<Rightarrow> hctx \<Rightarrow> bool \<Rightarrow>
   hterm option tc" where
  "check_log logs n rec msge expr expect ctx erased =
     obind (tcatch
              (obind (rec (Some msge) None ctx True) (\<lambda>msge_t.
               case msge_t of
                 None \<Rightarrow> tthrow Host_TypeError
               | Some t \<Rightarrow>
                   obind (\<lambda>s. talloc (erase (read s t)) s) (\<lambda>erased_t.
                   obind (display_normal n (Some erased_t)) talloc)))
              (\<lambda>e. talloc (Hol []))) (\<lambda>msge_t.
     obind (if logs then
              obind (print n (Some msge)) (\<lambda>shown. print n (Some msge_t))
            else treturn ()) (\<lambda>logged.
     rec (Some expr) expect ctx erased))"

definition check_hol :: "string \<Rightarrow> hterm option \<Rightarrow> hctx \<Rightarrow> hterm option tc" where
  "check_hol name expect ctx =
     obind (register_hole ctx name) (\<lambda>registered.
     treturn (case expect of Some e \<Rightarrow> Some e | None \<Rightarrow> Some (Hol (name @ ''_type''))))"

definition cache_type :: "nat \<Rightarrow> string \<Rightarrow> hterm option \<Rightarrow> unit tc" where
  \<comment> \<open>the inner \<^verbatim>\<open>if (!types[term[1].name])\<close> of the case \<^verbatim>\<open>Ref\<close>\<close>
  "cache_type n name dref_t =
     obind (subst_holes n dref_t 0) (\<lambda>dref_t'.
     obind (\<lambda>s. subst_holes n (map_of (tc_defs s) name) 0 s) (\<lambda>def'.
     obind (case def' of
              Ann type expr a \<Rightarrow> (\<lambda>s. Ok def' (set_flag a True s))
            | _ \<Rightarrow> new_ann dref_t' def' True) (\<lambda>cached s.
     Ok () (s\<lparr>tc_defs := (name, cached) # tc_defs s,
              tc_types := (tc_types s)(name \<mapsto> dref_t')\<rparr>))))"

definition check_ref ::
  "nat \<Rightarrow> checker \<Rightarrow> string \<Rightarrow> hterm \<Rightarrow> hctx \<Rightarrow> bool \<Rightarrow> hterm option tc" where
  "check_ref n rec name trm ctx erased =
     obind (\<lambda>s. case map_of (tc_defs s) name of
                  None \<Rightarrow> do_error n Undefined_reference trm ctx s
                | Some d \<Rightarrow>
                    if tc_types s name = None then
                      obind (rec (Some d) None Ctx_new erased) (\<lambda>dref_t s1.
                        if tc_types s1 name = None then cache_type n name dref_t s1
                        else Ok () s1) s
                    else Ok () s) (\<lambda>done s.
     Ok (tc_types s name) s)"

subsection \<open>\<^verbatim>\<open>typecheck\<close>\<close>

text \<open>
  The inner function \<^verbatim>\<open>typecheck(term, expect, ctx, erased)\<close>: the expected type is
  normalised, the case of the term gives the type, and the type is matched with the
  expected one.  \<open>logs\<close> is \<^verbatim>\<open>opts.logs\<close>; \<open>n\<close> is the fuel of the reductions and of the
  equality tests, and of the recursion of \<open>typecheck\<close> itself.
\<close>

definition typecheck_body :: "bool \<Rightarrow> nat \<Rightarrow> checker \<Rightarrow> checker" where
  "typecheck_body logs n rec trm expect ctx erased =
     obind (case expect of
              None \<Rightarrow> treturn None
            | Some e \<Rightarrow>
                obind (weak_normal n (Some e) (ctx_length ctx)) (\<lambda>nf. treturn (Some nf))) (\<lambda>expect_nf.
     case trm of
       None \<Rightarrow> tthrow Host_TypeError
     | Some t \<Rightarrow>
         obind (case t of
                  Var index \<Rightarrow> check_var n index t ctx erased
                | Typ \<Rightarrow> treturn (Some Typ)
                | AllT name bind body eras \<Rightarrow> check_all n rec name bind body eras expect_nf t ctx
                | Lam name bind body eras \<Rightarrow>
                    check_lam n rec name bind body eras expect_nf t ctx erased
                | App func argm eras \<Rightarrow> check_app n rec func argm eras t ctx erased
                | Num \<Rightarrow> treturn (Some Typ)
                | Val numb \<Rightarrow> treturn (Some Num)
                | Op1 func num0 num1 \<Rightarrow> check_op rec num0 num1 ctx erased
                | Op2 func num0 num1 \<Rightarrow> check_op rec num0 num1 ctx erased
                | Ite cond if_t if_f \<Rightarrow> check_ite n rec cond if_t if_f expect_nf t ctx erased
                | Slf name type \<Rightarrow> check_slf rec name type t ctx
                | New type expr \<Rightarrow> check_new n rec type expr t ctx erased
                | Use expr \<Rightarrow> check_use n rec expr t ctx erased
                | Ann type expr a \<Rightarrow> check_ann rec type expr a ctx erased
                | Log msge expr \<Rightarrow> check_log logs n rec msge expr expect ctx erased
                | Hol name \<Rightarrow> check_hol name expect ctx
                | Ref name eras \<Rightarrow> check_ref n rec name t ctx erased) (\<lambda>type.
         obind (case expect of
                  None \<Rightarrow> treturn ()
                | Some e \<Rightarrow> do_match n type e t ctx) (\<lambda>matched.
         treturn type)))"

primrec typecheck :: "bool \<Rightarrow> nat \<Rightarrow> checker" where
  "typecheck logs 0 = (\<lambda>trm expect ctx erased s. Halted Out_of_fuel)"
| "typecheck logs (Suc n) = typecheck_body logs n (typecheck logs n)"

subsection \<open>What a check does to the flags\<close>

text \<open>
  \<open>keeps s s'\<close>: from state \<open>s\<close> to state \<open>s'\<close> no object is lost and no flag that was set is
  cleared.  A function of the checker is \<open>steady\<close> when every call of it, returning or
  throwing, keeps the state in this sense.  \<open>empty_state\<close> is a state with one object,
  at address \<open>0\<close>, no holes, and no definitions.
\<close>

definition keeps :: "tc_state \<Rightarrow> tc_state \<Rightarrow> bool" where
  "keeps s s' = (fresh s \<le> fresh s' \<and> (\<forall>a < fresh s. flags s a \<longrightarrow> flags s' a))"

definition steady :: "'a tc \<Rightarrow> bool" where
  "steady m = (\<forall>s. case m s of Ok x s' \<Rightarrow> keeps s s' | Err e s' \<Rightarrow> keeps s s' | Halted h \<Rightarrow> True)"


text \<open>
  More fuel never changes a result other than \<open>Out_of_fuel\<close>; \<open>res_le\<close> is that order
  on results.
\<close>

definition res_le :: "'a res \<Rightarrow> 'a res \<Rightarrow> bool" where
  "res_le r r' = (r = Halt Out_of_fuel \<or> r' = r)"

section \<open>Properties of erasure and of the affinity check\<close>

text \<open>
  C9.  Erasure is idempotent: erasing an already erased term gives that term back,
  \<open>erase (erase t) = erase t\<close>, for every term \<open>t\<close>.
\<close>

theorem erase_idempotent: "erase (erase t) = erase t"
  by (induction t rule: erase.induct) auto

text \<open>
  C7.  \<^verbatim>\<open>is_affine\<close> checks the then-branch of an \<open>Ite\<close> twice and never its
  else-branch.  For \<open>if 1 then 0 else (x) => x .+. x\<close> it answers \<open>true\<close>, although the
  lambda in the else-branch uses its variable twice.
\<close>

theorem is_affine_skips_else_branch:
  "is_affine (Ite (Val 1) (Val 0) (Lam ''x'' None (Op2 ''.+.'' (Var 0) (Var 0)) False)) [] {}
     = Inr True
   \<and> uses (Op2 ''.+.'' (Var 0) (Var 0)) 0 = 2"
  by (simp add: both_def)

section \<open>Properties of the reducer\<close>

lemma reduce_sem_Suc:
  "reduce_sem opts defs (Suc n) t names = reduce_body opts defs (reduce_sem opts defs n) t names"
  by simp

lemma quote_Suc:
  "quote opts defs (Suc n) t d = quote_body (call opts defs n) (quote opts defs n) t d"
  by simp

declare reduce_sem.simps(2) [simp del] quote.simps(2) [simp del]

lemmas reduce_body_SVal = reduce_body_def [where t = "SVal a" for a]
lemmas reduce_body_SOp1 = reduce_body_def [where t = "SOp1 f a b" for f a b]
lemmas reduce_body_SOp2 = reduce_body_def [where t = "SOp2 f a b" for f a b]
lemmas reduce_body_SIte = reduce_body_def [where t = "SIte c a b" for c a b]


lemma res_le_refl [simp]: "res_le r r"
  by (simp add: res_le_def)

lemma res_le_fuel [simp]: "res_le (Halt Out_of_fuel) r"
  by (simp add: res_le_def)

lemma rbind_mono:
  assumes "res_le m m'" and "\<And>x. res_le (f x) (f' x)"
  shows "res_le (rbind m f) (rbind m' f')"
  using assms by (cases m) (auto simp: res_le_def rbind_def)

lemma weak_reduce_with_mono:
  assumes "\<And>t names. res_le (R t names) (R' t names)"
  shows "res_le (weak_reduce_with opts R t names) (weak_reduce_with opts R' t names)"
  using assms by (simp add: weak_reduce_with_def)

lemma call_with_mono:
  assumes "\<And>t names. res_le (R t names) (R' t names)"
  shows "res_le (call_with opts R c x) (call_with opts R' c x)"
  by (induction c arbitrary: x) (auto intro!: rbind_mono weak_reduce_with_mono assms)

lemma reduce_body_mono:
  assumes R: "\<And>t names. res_le (R t names) (R' t names)"
  shows "res_le (reduce_body opts defs R t names) (reduce_body opts defs R' t names)"
  unfolding reduce_body_def Let_def
  by (cases t)
     (auto intro!: rbind_mono weak_reduce_with_mono call_with_mono R
           split: sem.split option.split hole_value.split prod.split)

lemma reduce_sem_Suc_mono: "res_le (reduce_sem opts defs n t names) (reduce_sem opts defs (Suc n) t names)"
proof (induction n arbitrary: t names)
  case 0
  show ?case by simp
next
  case (Suc n)
  show ?case
    using reduce_body_mono [of "reduce_sem opts defs n" "reduce_sem opts defs (Suc n)", OF Suc.IH]
    by (simp add: reduce_sem_Suc)
qed

lemma reduce_sem_mono:
  "res_le (reduce_sem opts defs n t names) (reduce_sem opts defs (n + k) t names)"
proof (induction k)
  case 0
  show ?case by simp
next
  case (Suc k)
  then show ?case
    using reduce_sem_Suc_mono [of opts defs "n + k" t names]
    by (auto simp: res_le_def)
qed

lemma call_Suc_mono: "res_le (call opts defs n c x) (call opts defs (Suc n) c x)"
  unfolding call_def by (intro call_with_mono reduce_sem_Suc_mono)

lemma quote_body_mono:
  assumes C: "\<And>c x. res_le (C c x) (C' c x)" and Q: "\<And>t d. res_le (Q t d) (Q' t d)"
  shows "res_le (quote_body C Q t d) (quote_body C' Q' t d)"
  unfolding quote_body_def
  by (cases t) (auto intro!: rbind_mono C Q split: option.split)

lemma quote_Suc_mono: "res_le (quote opts defs n t d) (quote opts defs (Suc n) t d)"
proof (induction n arbitrary: t d)
  case 0
  show ?case by simp
next
  case (Suc n)
  show ?case
    using quote_body_mono [of "call opts defs n" "call opts defs (Suc n)"
        "quote opts defs n" "quote opts defs (Suc n)", OF call_Suc_mono Suc.IH]
    by (simp add: quote_Suc)
qed

lemma reduce_fuel_Suc_mono:
  "res_le (reduce_fuel n term defs opts) (reduce_fuel (Suc n) term defs opts)"
  unfolding reduce_fuel_def Let_def
  by (intro rbind_mono reduce_sem_Suc_mono quote_Suc_mono)

lemma reduce_fuel_mono:
  "res_le (reduce_fuel n term defs opts) (reduce_fuel (n + k) term defs opts)"
proof (induction k)
  case 0
  show ?case by simp
next
  case (Suc k)
  then show ?case
    using reduce_fuel_Suc_mono [of "n + k" "term" defs opts]
    by (auto simp: res_le_def)
qed

lemma reduce_deterministic:
  assumes "reduce term defs opts r" and "reduce term defs opts r'"
  shows "r = r'"
proof -
  from assms obtain n m where
    n: "reduce_fuel n term defs opts = r" "r \<noteq> Halt Out_of_fuel" and
    m: "reduce_fuel m term defs opts = r'" "r' \<noteq> Halt Out_of_fuel"
    by (auto simp: reduce_def)
  have "reduce_fuel (n + m) term defs opts = r"
    using reduce_fuel_mono [of n "term" defs opts m] n by (auto simp: res_le_def)
  moreover have "reduce_fuel (m + n) term defs opts = r'"
    using reduce_fuel_mono [of m "term" defs opts n] m by (auto simp: res_le_def)
  ultimately show ?thesis by (simp add: add.commute)
qed

lemma reduceI:
  assumes "reduce_fuel n term defs opts = r" and "r \<noteq> Halt Out_of_fuel"
  shows "reduce term defs opts r"
  using assms by (auto simp: reduce_def)

lemma reduce_iff:
  assumes "reduce_fuel n term defs opts = r" and "r \<noteq> Halt Out_of_fuel"
  shows "reduce term defs opts r' \<longleftrightarrow> r' = r"
  using assms reduce_deterministic reduceI by blast

lemma reduce_sem_SVal [simp]: "reduce_sem opts defs (Suc n) (SVal a) names = Ret (SVal a)"
  by (simp add: reduce_sem_Suc reduce_body_SVal)

lemma quote_SVal [simp]: "quote opts defs (Suc n) (SVal a) d = Ret (Val a)"
  by (simp add: quote_Suc quote_body_def)

lemma rbind_Ret [simp]: "rbind (Ret x) f = f x"
  by (simp add: rbind_def)

lemma rbind_Throw [simp]: "rbind (Throw e) f = Throw e"
  by (simp add: rbind_def)

lemma rbind_Halt [simp]: "rbind (Halt h) f = Halt h"
  by (simp add: rbind_def)

lemma add_literals_fuel:
  assumes "\<not> no_op1 opts" and "\<not> no_op2 opts" and "\<bar>a + b\<bar> \<le> 2 ^ 53"
  shows "reduce_fuel (Suc (Suc (Suc k))) (Inr (Op2 ''.+.'' (Val a) (Val b))) defs opts
           = Ret (Val (a + b))"
  using assms
  by (simp add: reduce_fuel_def reduce_sem_Suc [of _ _ _ "SOp2 _ _ _"]
      reduce_sem_Suc [of _ _ _ "SOp1 _ _ _"] reduce_body_SOp2 reduce_body_SOp1
      is_SVal_def prim_def exact_def)

lemma add_literals:
  assumes "\<not> no_op1 opts" and "\<not> no_op2 opts" and "\<bar>a + b\<bar> \<le> 2 ^ 53"
  shows "reduce (Inr (Op2 ''.+.'' (Val a) (Val b))) defs opts r \<longleftrightarrow> r = Ret (Val (a + b))"
  by (rule reduce_iff [OF add_literals_fuel [OF assms, of 0]]) simp

text \<open>
  C3.  The claim is that addition wraps at \<open>2 ^ 32\<close>.  The reducer adds the two numbers
  as the host does, and no primitive of any runtime reduces the sum modulo \<open>2 ^ 32\<close>.
  What holds: for word values \<open>a\<close> and \<open>b\<close> (\<open>0 \<le> a, b < 2 ^ 32\<close>), reducing
  \<open>Op2 ''.+.'' (Val a) (Val b)\<close> with numeric reduction enabled yields \<open>Val (a + b)\<close>, the
  sum without wrap-around, and nothing else.
\<close>

theorem add_does_not_wrap:
  assumes "0 \<le> a" "a < 2 ^ 32" "0 \<le> b" "b < 2 ^ 32" and "\<not> no_op1 opts" and "\<not> no_op2 opts"
  shows "reduce (Inr (Op2 ''.+.'' (Val a) (Val b))) defs opts r \<longleftrightarrow> r = Ret (Val (a + b))"
  using assms by (intro add_literals) auto

theorem add_does_not_wrap_witness:
  "reduce (Inr (Op2 ''.+.'' (Val 1) (Val 2))) [] default_opts (Ret (Val 3))"
  using add_does_not_wrap [of 1 2 default_opts "[]" "Ret (Val 3)"]
  by (simp add: default_opts_def)

theorem add_wraps_counterexample:
  "\<not> reduce (Inr (Op2 ''.+.'' (Val 4294967295) (Val 1))) [] default_opts
       (Ret (Val ((4294967295 + 1) mod 2 ^ 32)))"
  using add_literals [of default_opts 4294967295 1 "[]" "Ret (Val ((4294967295 + 1) mod 2 ^ 32))"]
  by (simp add: default_opts_def)

lemma reduce_sem_SIte_SVal:
  assumes "\<not> no_ite opts"
  shows "reduce_sem opts defs (Suc k) (SIte (SVal n) t f) names
           = reduce_sem opts defs k (if n > 0 then t else f) names"
  using assms
  by (cases k) (simp_all add: reduce_sem_Suc [of _ _ _ "SIte _ _ _"] reduce_body_SIte)

lemma reduce_head_step:
  assumes step: "\<And>k. reduce_sem opts defs (Suc k) (unquote a []) [] = reduce_sem opts defs k (unquote b []) []"
  shows "reduce (Inr a) defs opts = reduce (Inr b) defs opts"
proof (intro ext iffI)
  fix r
  assume "reduce (Inr a) defs opts r"
  then obtain m where m: "reduce_fuel m (Inr a) defs opts = r" and r: "r \<noteq> Halt Out_of_fuel"
    by (auto simp: reduce_def)
  from m r obtain k where k: "m = Suc k"
    by (cases m) (auto simp: reduce_fuel_def)
  have "reduce_sem opts defs k (unquote b []) [] \<noteq> Halt Out_of_fuel"
    using m r unfolding k reduce_fuel_def by (auto simp: step)
  then have "reduce_sem opts defs (Suc k) (unquote b []) [] = reduce_sem opts defs k (unquote b []) []"
    using reduce_sem_Suc_mono [of opts defs k "unquote b []" "[]"] by (simp add: res_le_def)
  then have "reduce_fuel (Suc k) (Inr b) defs opts = r"
    using m unfolding k reduce_fuel_def by (simp add: step)
  then show "reduce (Inr b) defs opts r"
    using r by (rule reduceI)
next
  fix r
  assume "reduce (Inr b) defs opts r"
  then obtain m where m: "reduce_fuel m (Inr b) defs opts = r" and r: "r \<noteq> Halt Out_of_fuel"
    by (auto simp: reduce_def)
  have "reduce_fuel (Suc m) (Inr a) defs opts = r"
  proof (cases "reduce_sem opts defs m (unquote b []) []")
    case (Ret v)
    then have "quote opts defs m v 0 = r"
      using m by (simp add: reduce_fuel_def)
    then have "quote opts defs (Suc m) v 0 = r"
      using quote_Suc_mono [of opts defs m v 0] r by (auto simp: res_le_def)
    then show ?thesis
      using Ret by (simp add: reduce_fuel_def step)
  next
    case (Throw e)
    then show ?thesis
      using m by (simp add: reduce_fuel_def step)
  next
    case (Halt h)
    then show ?thesis
      using m by (simp add: reduce_fuel_def step)
  qed
  then show "reduce (Inr a) defs opts r"
    using r by (rule reduceI)
qed

text \<open>
  C4.  With the rule for \<open>Ite\<close> enabled, reducing \<open>Ite (Val n) t f\<close> for a word value
  \<open>n\<close> has exactly the results of reducing \<open>t\<close> when \<open>n \<noteq> 0\<close>, and of reducing \<open>f\<close>
  when \<open>n = 0\<close>.
\<close>

theorem ite_selects_branch:
  assumes "\<not> no_ite opts" and "0 \<le> n"
  shows "reduce (Inr (Ite (Val n) t f)) defs opts = reduce (Inr (if n \<noteq> 0 then t else f)) defs opts"
proof -
  have "(n > 0) = (n \<noteq> 0)"
    using assms(2) by auto
  then show ?thesis
    using reduce_sem_SIte_SVal [OF assms(1), of defs _ n "unquote t []" "unquote f []" "[]"]
    by (intro reduce_head_step) auto
qed

lemma reduce_Val: "reduce (Inr (Val a)) defs opts (Ret (Val a))"
  by (rule reduceI [of 1]) (simp_all add: reduce_fuel_def)

theorem ite_selects_branch_witness:
  "reduce (Inr (Ite (Val 1) (Val 2) (Val 3))) [] default_opts (Ret (Val 2))
   \<and> reduce (Inr (Ite (Val 0) (Val 2) (Val 3))) [] default_opts (Ret (Val 3))"
  using ite_selects_branch [of default_opts 1 "Val 2" "Val 3" "[]"]
        ite_selects_branch [of default_opts 0 "Val 2" "Val 3" "[]"]
  by (simp add: default_opts_def reduce_Val)

text \<open>
  C10.  The entry point accepts the name of a definition in place of a term: for every
  name \<open>s\<close>, definitions, options and fuel, \<open>reduce\<close> of the name is \<open>reduce\<close> of
  \<open>Ref s False\<close>.
\<close>

theorem reduce_accepts_name:
  "reduce_fuel n (Inl s) defs opts = reduce_fuel n (Inr (Ref s False)) defs opts"
  by (simp add: reduce_fuel_def)

section \<open>Properties of the equality engine\<close>

lemmas eval_simps = obind_def lift_def reduce_fuel_def reduce_sem_Suc reduce_body_def quote_Suc quote_body_def
  weak_reduce_with_def call_def names_var_def names_get_def eqs_opts_def same_heads_def
  fast_path_def hol_name_def ref_name_def app_parts_def set_value_def show_int_def
  show_nat.simps is_SVal_def

text \<open>
  C1.  The leaf that \<^verbatim>\<open>equal\<close> builds for the literals of two \<open>Op1\<close> heads compares the
  number of the left term with itself.  The terms \<open>x .+. 5\<close> and \<open>x .+. 6\<close>, for a free
  variable \<open>x\<close>, are therefore found equal.
\<close>

theorem equal_ignores_op1_literal:
  "equal (Op1 ''.+.'' (Var 0) (Val 5)) (Op1 ''.+.'' (Var 0) (Val 6)) 0 [] Map.empty
     (Ok True Map.empty)"
proof -
  have "equal_fuel 5 (Op1 ''.+.'' (Var 0) (Val 5)) (Op1 ''.+.'' (Var 0) (Val 6)) 0 [] Map.empty
          = Ok True Map.empty"
    by (simp add: eval_nat_numeral eval_simps)
  then show ?thesis
    unfolding equal_def by blast
qed

lemma quote_Hol:
  assumes "quote opts defs n t d = Ret (Hol name)"
  shows "t = SHol name"
proof (cases n)
  case 0
  with assms show ?thesis by simp
next
  case (Suc m)
  with assms show ?thesis
    by (cases t) (auto simp: quote_Suc quote_body_def rbind_def split: res.splits option.splits)
qed

lemma reduce_body_SHol:
  assumes IH: "\<And>t names. R t names = Ret (SHol name) \<Longrightarrow> unassigned opts name"
    and "reduce_body opts defs R t names = Ret (SHol name)"
    and "\<not> no_hol opts"
  shows "unassigned opts name"
  using assms(2,3)
  unfolding reduce_body_def Let_def
  by (cases t)
     (auto simp: rbind_def weak_reduce_with_def unassigned_def
           split: res.splits sem.splits option.splits if_splits hole_value.splits prod.splits
           dest: IH)

lemma reduce_sem_SHol:
  assumes "reduce_sem opts defs n t names = Ret (SHol name)" and "\<not> no_hol opts"
  shows "unassigned opts name"
  using assms
proof (induction n arbitrary: t names)
  case 0
  then show ?case by simp
next
  case (Suc n)
  show ?case
    by (rule reduce_body_SHol [of "reduce_sem opts defs n" name opts defs t names])
       (use Suc in \<open>auto simp: reduce_sem_Suc\<close>)
qed

lemma reduce_fuel_Hol:
  assumes "reduce_fuel n t defs opts = Ret (Hol name)" and "\<not> no_hol opts"
  shows "unassigned opts name"
  using assms
  by (auto simp: reduce_fuel_def Let_def rbind_def split: res.splits
           dest!: quote_Hol reduce_sem_SHol)

lemma settled_refl [simp]: "settled e e"
  by (simp add: settled_def)

lemma settled_trans:
  assumes "settled a b" and "settled b c"
  shows "settled a c"
proof (cases "b = a")
  case True
  with assms(2) show ?thesis by simp
next
  case False
  with assms(1) obtain h t where
    a: "a = Some h" "hvalue h = Unset" and b: "b = Some (h\<lparr>hvalue := Assigned t\<rparr>)"
    by (auto simp: settled_def)
  have "c = b"
    using assms(2) b by (auto simp: settled_def)
  with a b show ?thesis
    by (auto simp: settled_def)
qed

lemma settles_refl [simp]: "settles hs hs"
  by (simp add: settles_def)

lemma settles_trans: "settles hs hs1 \<Longrightarrow> settles hs1 hs2 \<Longrightarrow> settles hs hs2"
  unfolding settles_def using settled_trans by blast

lemma assigns_one_settles:
  assumes "assigns_one hs hs'"
  shows "settles hs hs'"
proof -
  from assms obtain name h t where
    h: "hs name = Some h" "hvalue h = Unset" and hs': "hs' = hs(name \<mapsto> h\<lparr>hvalue := Assigned t\<rparr>)"
    by (auto simp: assigns_one_def)
  show ?thesis
    unfolding settles_def
  proof
    fix name'
    show "settled (hs name') (hs' name')"
    proof (cases "name' = name")
      case True
      then have "hs' name' = Some (h\<lparr>hvalue := Assigned t\<rparr>)"
        by (simp add: hs')
      with True h show ?thesis
        unfolding settled_def by blast
    next
      case False
      then show ?thesis by (simp add: hs')
    qed
  qed
qed

lemma fast_path_assigns:
  assumes "fast_path eq a_x b_x d hs = Ok x hs' \<or> fast_path eq a_x b_x d hs = Err e hs'"
    and "\<And>name. hol_name a_x = Some name \<Longrightarrow> unassigned (eqs_opts hs d) name"
    and "\<And>name. hol_name b_x = Some name \<Longrightarrow> unassigned (eqs_opts hs d) name"
  shows "hs' = hs \<or> assigns_one hs hs'"
proof (cases "hol_name a_x")
  case None
  note a = this
  show ?thesis
  proof (cases "hol_name b_x")
    case None
    with a assms(1) show ?thesis
      by (auto simp: fast_path_def split: if_splits option.splits prod.splits)
  next
    case (Some name)
    with assms(3) have "unassigned (eqs_opts hs d) name" by simp
    with a Some assms(1) show ?thesis
      by (auto simp: fast_path_def unassigned_def eqs_opts_def Let_def
            set_value_def assigns_one_def
          split: if_splits option.splits hole_value.splits)
  qed
next
  case (Some name)
  with assms(2) have "unassigned (eqs_opts hs d) name" by simp
  with Some assms(1) show ?thesis
    by (auto simp: fast_path_def unassigned_def eqs_opts_def Let_def
          set_value_def assigns_one_def
        split: if_splits option.splits hole_value.splits)
qed

lemma obind_eq_Ok: "obind m f s = Ok y s' \<longleftrightarrow> (\<exists>x s1. m s = Ok x s1 \<and> f x s1 = Ok y s')"
  by (cases "m s") (auto simp: obind_def)

lemma obind_eq_Err:
  "obind m f s = Err e s' \<longleftrightarrow> m s = Err e s' \<or> (\<exists>x s1. m s = Ok x s1 \<and> f x s1 = Err e s')"
  by (cases "m s") (auto simp: obind_def)

lemma lift_eq_Ok [simp]: "lift r s = Ok x s' \<longleftrightarrow> r = Ret x \<and> s' = s"
  by (cases r) (auto simp: lift_def)

lemma lift_eq_Err [simp]: "lift r s = Err e s' \<longleftrightarrow> r = Throw e \<and> s' = s"
  by (cases r) (auto simp: lift_def)

lemma step_Eqs_assigns:
  assumes "step n defs (Eqs a b d) hs = Ok node' hs' \<or> step n defs (Eqs a b d) hs = Err e hs'"
  shows "hs' = hs \<or> assigns_one hs hs'"
proof -
  have nh: "\<not> no_hol (eqs_opts hs d)"
    by (simp add: eqs_opts_def)
  let ?eq = "\<lambda>a b d. equal_fuel n a b d defs"
  let ?red = "\<lambda>t ds. reduce_fuel n (Inr t) ds (eqs_opts hs d)"
  from assms consider
      (same) "hs' = hs"
    | (fast) a_x b_x x where "?red a [] = Ret a_x" "?red b [] = Ret b_x"
        "fast_path ?eq a_x b_x d hs = Ok x hs' \<or> fast_path ?eq a_x b_x d hs = Err e hs'"
    by (auto simp: step_def Let_def obind_eq_Ok obind_eq_Err split: if_splits)
  then show ?thesis
  proof cases
    case same
    then show ?thesis by simp
  next
    case fast
    have ua: "unassigned (eqs_opts hs d) name" if "hol_name a_x = Some name" for name
    proof -
      from that have "a_x = Hol name"
        by (cases a_x) (simp_all add: hol_name_def)
      with fast(1) show ?thesis
        using reduce_fuel_Hol [OF _ nh] by blast
    qed
    have ub: "unassigned (eqs_opts hs d) name" if "hol_name b_x = Some name" for name
    proof -
      from that have "b_x = Hol name"
        by (cases b_x) (simp_all add: hol_name_def)
      with fast(2) show ?thesis
        using reduce_fuel_Hol [OF _ nh] by blast
    qed
    from fast(3) show ?thesis
      by (rule fast_path_assigns) (fact ua ub)+
  qed
qed

lemma step_settles:
  assumes "step n defs node hs = Ok node' hs' \<or> step n defs node hs = Err e hs'"
  shows "settles hs hs'"
  using assms
proof (induction node arbitrary: hs node' hs')
  case (Eqs a b d)
  then have "hs' = hs \<or> assigns_one hs hs'"
    by (rule step_Eqs_assigns)
  then show ?case
    using assigns_one_settles by auto
next
  case (Bop v x y)
  show ?case
  proof (cases "(\<exists>xv. x = Leaf xv) \<or> (\<exists>yv. y = Leaf yv)")
    case True
    with Bop.prems have "hs' = hs"
      by (auto simp: step_def split: node.splits)
    then show ?thesis by simp
  next
    case False
    then have "step n defs (Bop v x y) hs =
        obind (step n defs x) (\<lambda>X. obind (step n defs y) (\<lambda>Y. Ok (Bop v X Y))) hs"
      by (cases x; cases y) (simp_all add: step_def)
    with Bop.prems consider
        (x) "step n defs x hs = Err e hs'"
      | (y) X hs1 where "step n defs x hs = Ok X hs1"
          "(\<exists>Y. step n defs y hs1 = Ok Y hs') \<or> step n defs y hs1 = Err e hs'"
      by (auto simp: obind_eq_Ok obind_eq_Err)
    then show ?thesis
    proof cases
      case x
      then show ?thesis using Bop.IH(1) by blast
    next
      case y
      then have "settles hs hs1" "settles hs1 hs'"
        using Bop.IH by blast+
      then show ?thesis by (rule settles_trans)
    qed
  qed
next
  case (Leaf v)
  then show ?case by (simp add: step_def)
qed

lemma settled_monotone:
  assumes "settled e e'"
  shows "case e of
           None \<Rightarrow> e' = None
         | Some h \<Rightarrow>
             (case e' of
                None \<Rightarrow> False
              | Some h' \<Rightarrow> hdepth h' = hdepth h \<and> value_moves (hvalue h) (hvalue h'))"
proof (cases "e' = e")
  case True
  then show ?thesis
    by (cases e) (auto simp: value_moves_def split: hole_value.splits)
next
  case False
  with assms obtain h t where "e = Some h" "hvalue h = Unset" "e' = Some (h\<lparr>hvalue := Assigned t\<rparr>)"
    by (auto simp: settled_def)
  then show ?thesis
    by (simp add: value_moves_def)
qed

lemma settles_monotone: "settles hs hs' \<Longrightarrow> holes_monotone hs hs'"
  unfolding settles_def holes_monotone_def using settled_monotone by blast

lemma assigns_one_others:
  assumes "hs' = hs \<or> assigns_one hs hs'"
  shows "\<exists>name. \<forall>other. other \<noteq> name \<longrightarrow> hs' other = hs other"
  using assms by (auto simp: assigns_one_def)

text \<open>
  Across every step of the search, whether it returns or throws, the registry moves only
  forward in the order \<open>holes_monotone\<close>, and a step on one equation changes the value of
  at most one hole.
\<close>

lemma hole_assignment_monotone:
  assumes "step n defs node hs = Ok node' hs' \<or> step n defs node hs = Err e hs'"
  shows "holes_monotone hs hs' \<and>
         ((\<exists>a b d. node = Eqs a b d) \<longrightarrow>
            (\<exists>name. \<forall>other. other \<noteq> name \<longrightarrow> hs' other = hs other))"
proof
  show "holes_monotone hs hs'"
    using assms by (intro settles_monotone step_settles)
next
  show "(\<exists>a b d. node = Eqs a b d) \<longrightarrow>
          (\<exists>name. \<forall>other. other \<noteq> name \<longrightarrow> hs' other = hs other)"
    using assms step_Eqs_assigns assigns_one_others by blast
qed

lemma hole_assignment_monotone_example:
  "holes_monotone [''h'' \<mapsto> \<lparr>hdepth = 0, hvalue = Unset\<rparr>]
     [''h'' \<mapsto> \<lparr>hdepth = 0, hvalue = Assigned (Val 1)\<rparr>]"
proof -
  have "step 3 [] (Eqs (Hol ''h'') (Val 1) 0) [''h'' \<mapsto> \<lparr>hdepth = 0, hvalue = Unset\<rparr>]
          = Ok (Bop True (Leaf True) (Leaf False))
               [''h'' \<mapsto> \<lparr>hdepth = 0, hvalue = Assigned (Val 1)\<rparr>]"
    by (simp add: step_def eval_nat_numeral eval_simps)
  from hole_assignment_monotone [OF disjI1, OF this] show ?thesis
    by blast
qed

text \<open>
  More than that: no step changes a hole that is not unset.  The branch of \<^verbatim>\<open>step\<close> that
  gives a hole the conflict mark is taken when the head of a reduced side is a hole that
  has a term, and \<^verbatim>\<open>reduce\<close> has replaced every such hole by its term.
\<close>

lemma assigned_hole_kept:
  assumes "step n defs node hs = Ok node' hs' \<or> step n defs node hs = Err e hs'"
    and "hs name = Some h" and "hvalue h \<noteq> Unset"
  shows "hs' name = Some h"
proof -
  have "settles hs hs'"
    using assms(1) by (rule step_settles)
  then have "settled (hs name) (hs' name)"
    by (simp add: settles_def)
  then show ?thesis
    using assms(2,3) by (auto simp: settled_def)
qed

text \<open>
  C6.  A hole that has a term does not become \<^verbatim>\<open>null\<close> when a solution that is not equal to
  the term is met.  With the hole \<open>h\<close> solved as \<open>1\<close>, comparing \<open>h\<close> with \<open>2\<close> answers
  \<open>false\<close>, and the step on that equation gives the leaf \<open>false\<close>; both leave the hole
  with the term \<open>1\<close>.
\<close>

theorem assigned_hole_not_downgraded:
  "equal (Hol ''h'') (Val 2) 0 [] [''h'' \<mapsto> \<lparr>hdepth = 0, hvalue = Assigned (Val 1)\<rparr>]
     (Ok False [''h'' \<mapsto> \<lparr>hdepth = 0, hvalue = Assigned (Val 1)\<rparr>])
   \<and> step 3 [] (Eqs (Hol ''h'') (Val 2) 0) [''h'' \<mapsto> \<lparr>hdepth = 0, hvalue = Assigned (Val 1)\<rparr>]
       = Ok (Leaf False) [''h'' \<mapsto> \<lparr>hdepth = 0, hvalue = Assigned (Val 1)\<rparr>]"
proof
  have "equal_fuel 5 (Hol ''h'') (Val 2) 0 [] [''h'' \<mapsto> \<lparr>hdepth = 0, hvalue = Assigned (Val 1)\<rparr>]
          = Ok False [''h'' \<mapsto> \<lparr>hdepth = 0, hvalue = Assigned (Val 1)\<rparr>]"
    by (simp add: eval_nat_numeral eval_simps)
  then show "equal (Hol ''h'') (Val 2) 0 [] [''h'' \<mapsto> \<lparr>hdepth = 0, hvalue = Assigned (Val 1)\<rparr>]
     (Ok False [''h'' \<mapsto> \<lparr>hdepth = 0, hvalue = Assigned (Val 1)\<rparr>])"
    unfolding equal_def by blast
next
  show "step 3 [] (Eqs (Hol ''h'') (Val 2) 0) [''h'' \<mapsto> \<lparr>hdepth = 0, hvalue = Assigned (Val 1)\<rparr>]
       = Ok (Leaf False) [''h'' \<mapsto> \<lparr>hdepth = 0, hvalue = Assigned (Val 1)\<rparr>]"
    by (simp add: step_def eval_nat_numeral eval_simps)
qed

section \<open>Properties of the type checker\<close>

subsection \<open>Looking up a variable\<close>

lemma ctx_length_0 [simp]: "ctx_length ctx = 0 \<longleftrightarrow> ctx = Ctx_new"
  by (cases ctx) auto

lemma ctx_walk_short:
  "ctx \<noteq> Ctx_new \<Longrightarrow> ctx_length ctx \<le> k \<Longrightarrow> ctx_walk k ctx = Ret None"
proof (induction k ctx rule: ctx_walk.induct)
  case (3 k name trm type eras rest)
  then show ?case by (cases rest) auto
qed auto

lemma ctx_get_unbound:
  assumes "ctx \<noteq> Ctx_new" and "int (ctx_length ctx) \<le> i"
  shows "ctx_get i ctx = Ret None"
proof -
  have "ctx_length ctx \<le> nat i" using assms(2) by simp
  then have "ctx_walk (nat i) ctx = Ret None"
    using assms(1) by (rule ctx_walk_short [rotated])
  then show ?thesis by (simp add: ctx_get_def)
qed

lemma ctx_get_empty:
  "ctx_get i Ctx_new =
     (if i < 0 then Ret None
      else if i = 0 then Ret (Some \<lparr>got_name = None, got_term = Var 0, got_type = None, got_eras = None\<rparr>)
      else Throw Host_TypeError)"
  by (cases "nat i") (auto simp: ctx_get_def)

subsection \<open>No check clears a flag that was set\<close>

lemma keeps_refl [simp]: "keeps s s"
  by (simp add: keeps_def)

lemma keeps_trans: "keeps s s1 \<Longrightarrow> keeps s1 s2 \<Longrightarrow> keeps s s2"
  by (fastforce simp: keeps_def)

lemma keeps_other_fields [simp]:
  "keeps s (s'\<lparr>memo_on := m\<rparr>) = keeps s s'"
  "keeps s (s'\<lparr>tc_holes := hs\<rparr>) = keeps s s'"
  "keeps s (s'\<lparr>tc_defs := ds\<rparr>) = keeps s s'"
  "keeps s (s'\<lparr>tc_types := ts\<rparr>) = keeps s s'"
  by (simp_all add: keeps_def)

lemma steadyI:
  assumes "\<And>s x s'. m s = Ok x s' \<Longrightarrow> keeps s s'" and "\<And>s e s'. m s = Err e s' \<Longrightarrow> keeps s s'"
  shows "steady m"
  unfolding steady_def using assms by (auto split: out.splits)

lemma steadyD:
  assumes "steady m"
  shows "m s = Ok x s' \<Longrightarrow> keeps s s'" and "m s = Err e s' \<Longrightarrow> keeps s s'"
  using assms unfolding steady_def by (auto split: out.splits dest: spec [of _ s])

lemma steady_treturn [intro!, simp]: "steady (treturn x)"
  by (simp add: steady_def treturn_def)

lemma steady_tthrow [intro!, simp]: "steady (tthrow e)"
  by (simp add: steady_def tthrow_def)

lemma steady_obind [intro!]:
  assumes "steady m" and "\<And>x. steady (f x)"
  shows "steady (obind m f)"
proof (rule steadyI)
  fix s y s'
  assume "obind m f s = Ok y s'"
  then obtain x s1 where "m s = Ok x s1" "f x s1 = Ok y s'"
    by (auto simp: obind_eq_Ok)
  then have "keeps s s1" "keeps s1 s'"
    using steadyD(1) [OF assms(1)] steadyD(1) [OF assms(2)] by blast+
  then show "keeps s s'"
    by (rule keeps_trans)
next
  fix s e s'
  assume "obind m f s = Err e s'"
  then consider "m s = Err e s'" | x s1 where "m s = Ok x s1" "f x s1 = Err e s'"
    by (auto simp: obind_eq_Err)
  then show "keeps s s'"
  proof cases
    case 1
    then show ?thesis using steadyD(2) [OF assms(1)] by blast
  next
    case 2
    then have "keeps s s1" "keeps s1 s'"
      using steadyD(1) [OF assms(1)] steadyD(2) [OF assms(2)] by blast+
    then show ?thesis by (rule keeps_trans)
  qed
qed

lemma steady_tcatch [intro!]:
  assumes "steady m" and "\<And>e. steady (h e)"
  shows "steady (tcatch m h)"
proof (rule steadyI)
  fix s y s'
  assume "tcatch m h s = Ok y s'"
  then consider "m s = Ok y s'" | e s1 where "m s = Err e s1" "h e s1 = Ok y s'"
    by (auto simp: tcatch_def split: out.splits)
  then show "keeps s s'"
  proof cases
    case 1
    then show ?thesis using steadyD(1) [OF assms(1)] by blast
  next
    case 2
    then have "keeps s s1" "keeps s1 s'"
      using steadyD(2) [OF assms(1)] steadyD(1) [OF assms(2)] by blast+
    then show ?thesis by (rule keeps_trans)
  qed
next
  fix s e' s'
  assume "tcatch m h s = Err e' s'"
  then obtain e s1 where "m s = Err e s1" "h e s1 = Err e' s'"
    by (auto simp: tcatch_def split: out.splits)
  then have "keeps s s1" "keeps s1 s'"
    using steadyD(2) [OF assms(1)] steadyD(2) [OF assms(2)] by blast+
  then show "keeps s s'"
    by (rule keeps_trans)
qed

lemma new_cell_keeps: "new_cell b s = (a, s') \<Longrightarrow> keeps s s'"
  by (auto simp: new_cell_def keeps_def)

lemma alloc_keeps: "alloc t s = (h, s') \<Longrightarrow> keeps s s'"
proof (induction t arbitrary: s h s')
  case (Lam name bind body eras)
  show ?case
  proof (cases bind)
    case None
    with Lam show ?thesis by (auto split: prod.splits)
  next
    case (Some b)
    with Lam.prems obtain b' s1 body' where "alloc b s = (b', s1)" "alloc body s1 = (body', s')"
      by (auto split: prod.splits)
    then have "keeps s s1" "keeps s1 s'"
      using Lam.IH Some by auto
    then show ?thesis by (rule keeps_trans)
  qed
qed (auto split: prod.splits, (blast intro: keeps_trans new_cell_keeps)+)

lemma hshift_keeps: "hshift t i d s = (h, s') \<Longrightarrow> keeps s s'"
  by (auto simp: hshift_def dest: alloc_keeps)

lemma hsubst_keeps: "hsubst t v d s = (h, s') \<Longrightarrow> keeps s s'"
proof (induction t arbitrary: v d s h s')
  case (Lam name bind body eras)
  from Lam.prems obtain bind' s1 v' s2 body' where
    b: "(case bind of None \<Rightarrow> (None, s)
         | Some b \<Rightarrow> (case hsubst b v d s of (b', s') \<Rightarrow> (Some b', s'))) = (bind', s1)"
    and r: "hshift v 1 0 s1 = (v', s2)" "hsubst body v' (d + 1) s2 = (body', s')"
    by (auto split: prod.splits)
  have "keeps s s1"
    using b Lam.IH(1) by (cases bind) (auto split: prod.splits)
  moreover have "keeps s1 s2" "keeps s2 s'"
    using r Lam.IH(2) hshift_keeps by blast+
  ultimately show ?case
    by (blast intro: keeps_trans)
next
  case (AllT name bind body eras)
  from AllT.prems obtain bind' s1 v' s2 body' where
    "hsubst bind v d s = (bind', s1)" "hshift v 1 0 s1 = (v', s2)"
    "hsubst body v' (d + 1) s2 = (body', s')"
    by (auto split: prod.splits)
  then have "keeps s s1" "keeps s1 s2" "keeps s2 s'"
    using AllT.IH hshift_keeps by blast+
  then show ?case
    by (blast intro: keeps_trans)
next
  case (Slf name type)
  from Slf.prems obtain v' s1 type' where
    "hshift v 1 0 s = (v', s1)" "hsubst type v' (d + 1) s1 = (type', s')"
    by (auto split: prod.splits)
  then have "keeps s s1" "keeps s1 s'"
    using Slf.IH hshift_keeps by blast+
  then show ?case
    by (blast intro: keeps_trans)
qed (auto split: prod.splits if_splits, (blast intro: keeps_trans new_cell_keeps)+)

lemma steady_state_fn:
  assumes "\<And>s. steady (\<lambda>s'. m s s')"
  shows "steady (\<lambda>s. m s s)"
  using assms unfolding steady_def by auto

lemma steady_run_reduce [intro!, simp]: "steady (run_reduce r m)"
  by (rule steadyI) (auto simp: run_reduce_def split: res.splits)

lemma steady_reduce_here [intro!, simp]: "steady (reduce_here n trm with_defs opts)"
  by (rule steadyI) (auto simp: reduce_here_def run_reduce_def Let_def split: option.splits res.splits)

lemma steady_talloc [intro!, simp]: "steady (talloc t)"
  by (rule steadyI) (auto simp: talloc_def split: prod.splits dest: alloc_keeps)

lemma steady_weak_normal [intro!, simp]: "steady (weak_normal n trm dep)"
proof -
  have "steady (obind (reduce_here n trm True opts) talloc)" for opts
    by blast
  then show ?thesis
    unfolding steady_def weak_normal_def by blast
qed

lemma steady_display_normal [intro!, simp]: "steady (display_normal n trm)"
  using steady_reduce_here unfolding steady_def display_normal_def by blast

lemma steady_subst_holes [intro!, simp]: "steady (subst_holes n trm dep)"
proof -
  have "steady (obind (reduce_here n trm False opts) talloc)" for opts
    by blast
  then show ?thesis
    unfolding steady_def subst_holes_def by blast
qed

lemma steady_print [intro!, simp]: "steady (print n trm)"
  unfolding print_def by blast

lemma steady_ctx_str [intro!, simp]: "steady (ctx_str n ctx)"
  by (induction ctx) auto

lemma steady_do_error [intro!, simp]: "steady (do_error n kind trm ctx)"
  unfolding do_error_def by blast

lemma steady_run_equal [intro!, simp]: "steady (run_equal n a b dep)"
  by (rule steadyI) (auto simp: run_equal_def split: option.splits out.splits)

lemma steady_do_match [intro!, simp]: "steady (do_match n a b trm ctx)"
  unfolding do_match_def by (auto intro!: steady_obind)

lemma steady_register_hole [intro!, simp]: "steady (register_hole ctx name)"
  by (rule steadyI) (auto simp: register_hole_def)

lemma steady_hctx_get [intro!, simp]: "steady (hctx_get i ctx)"
proof (rule steadyI)
  fix s x s'
  assume "hctx_get i ctx s = Ok x s'"
  then show "keeps s s'"
    by (auto simp: hctx_get_def split: res.splits option.splits prod.splits
             dest!: alloc_keeps intro: keeps_trans)
next
  fix s e s'
  assume "hctx_get i ctx s = Err e s'"
  then show "keeps s s'"
    by (auto simp: hctx_get_def split: res.splits option.splits prod.splits)
qed

lemma steady_new_ann [intro!, simp]: "steady (new_ann type expr done)"
  by (rule steadyI) (auto simp: new_ann_def split: prod.splits dest: new_cell_keeps)

lemma steady_tsubst [intro!, simp]: "steady (tsubst t v d)"
  by (rule steadyI) (auto simp: tsubst_def split: prod.splits dest: hsubst_keeps)

lemma steady_if [intro!]: "steady m \<Longrightarrow> steady m' \<Longrightarrow> steady (if c then m else m')"
  by simp

lemma steady_check_var [intro!, simp]: "steady (check_var n index trm ctx erased)"
  unfolding check_var_def by (auto intro!: steady_obind split: option.splits)

lemma steady_check_all [intro!]:
  assumes "\<And>t e c er. steady (rec t e c er)"
  shows "steady (check_all n rec name bind body eras expect_nf trm ctx)"
  unfolding check_all_def by (auto intro!: steady_obind assms split: option.splits)

lemma steady_check_lam [intro!]:
  assumes "\<And>t e c er. steady (rec t e c er)"
  shows "steady (check_lam n rec name bind body eras expect_nf trm ctx erased)"
  unfolding check_lam_def Let_def by (auto intro!: steady_obind assms split: option.splits)

lemma steady_check_app [intro!]:
  assumes "\<And>t e c er. steady (rec t e c er)"
  shows "steady (check_app n rec func argm eras trm ctx erased)"
  unfolding check_app_def by (auto intro!: steady_obind assms split: gterm.splits)

lemma steady_check_op [intro!]:
  assumes "\<And>t e c er. steady (rec t e c er)"
  shows "steady (check_op rec num0 num1 ctx erased)"
  unfolding check_op_def by (auto intro!: steady_obind assms)

lemma steady_check_ite [intro!]:
  assumes "\<And>t e c er. steady (rec t e c er)"
  shows "steady (check_ite n rec cond if_t if_f expect_nf trm ctx erased)"
  unfolding check_ite_def by (auto intro!: steady_obind assms)

lemma steady_check_slf [intro!]:
  assumes "\<And>t e c er. steady (rec t e c er)"
  shows "steady (check_slf rec name type trm ctx)"
  unfolding check_slf_def by (auto intro!: steady_obind assms)

lemma steady_check_new [intro!]:
  assumes "\<And>t e c er. steady (rec t e c er)"
  shows "steady (check_new n rec type expr trm ctx erased)"
  unfolding check_new_def by (auto intro!: steady_obind assms split: gterm.splits)

lemma steady_check_use [intro!]:
  assumes "\<And>t e c er. steady (rec t e c er)"
  shows "steady (check_use n rec expr trm ctx erased)"
  unfolding check_use_def by (auto intro!: steady_obind assms split: gterm.splits)

lemma steady_check_parts [intro!]:
  assumes "\<And>t e c er. steady (rec t e c er)"
  shows "steady (check_parts rec type expr ctx erased)"
  unfolding check_parts_def by (auto intro!: steady_obind assms)

lemma keeps_set_True: "keeps s (set_flag a True s)"
  by (simp add: keeps_def set_flag_def)

lemma keeps_reset:
  assumes "\<not> flags s a" and "keeps (set_flag a True s) s'"
  shows "keeps s (set_flag a False s')"
  using assms by (auto simp: keeps_def set_flag_def)

lemma steady_check_ann [intro!]:
  assumes "\<And>t e c er. steady (rec t e c er)"
  shows "steady (check_ann rec type expr a ctx erased)"
proof (rule steadyI)
  have sp: "steady (check_parts rec type expr ctx erased)"
    by (rule steady_check_parts) (rule assms)
  fix s x s'
  assume "check_ann rec type expr a ctx erased s = Ok x s'"
  then consider "s' = s"
    | y where "check_parts rec type expr ctx erased (set_flag a True s) = Ok y s'"
    by (auto simp: check_ann_def split: if_splits out.splits)
  then show "keeps s s'"
  proof cases
    case 1
    then show ?thesis by simp
  next
    case 2
    then have "keeps (set_flag a True s) s'"
      using steadyD(1) [OF sp] by blast
    then show ?thesis
      using keeps_set_True keeps_trans by blast
  qed
next
  have sp: "steady (check_parts rec type expr ctx erased)"
    by (rule steady_check_parts) (rule assms)
  fix s e s'
  assume "check_ann rec type expr a ctx erased s = Err e s'"
  then obtain s1 where "\<not> flags s a" "s' = set_flag a False s1"
    "check_parts rec type expr ctx erased (set_flag a True s) = Err e s1"
    by (auto simp: check_ann_def split: if_splits out.splits)
  moreover from this have "keeps (set_flag a True s) s1"
    using steadyD(2) [OF sp] by blast
  ultimately show "keeps s s'"
    using keeps_reset by blast
qed

lemma steady_check_log [intro!]:
  assumes "\<And>t e c er. steady (rec t e c er)"
  shows "steady (check_log logs n rec msge expr expect ctx erased)"
proof -
  have "steady (\<lambda>s. talloc (erase (read s t)) s)" for t
    by (rule steady_state_fn) simp
  then show ?thesis
    unfolding check_log_def
    by (auto intro!: steady_obind steady_tcatch assms split: option.splits)
qed

lemma steady_check_hol [intro!, simp]: "steady (check_hol name expect ctx)"
  unfolding check_hol_def by (auto intro!: steady_obind)

lemma steady_cache_type [intro!, simp]: "steady (cache_type n name dref_t)"
proof -
  have 1: "steady (\<lambda>s. subst_holes n (map_of (tc_defs s) name) 0 s)"
    by (rule steady_state_fn) simp
  have 2: "steady (\<lambda>s. Ok d (set_flag a True s))" for d :: hterm and a
    by (rule steadyI) (auto simp: keeps_set_True)
  have 3: "steady (\<lambda>s. Ok () (s\<lparr>tc_defs := (name, c) # tc_defs s,
              tc_types := (tc_types s)(name \<mapsto> t)\<rparr>))" for c t
    by (rule steadyI) auto
  show ?thesis
    unfolding cache_type_def
    by (intro steady_obind 1 3 steady_subst_holes) (auto simp: 2 split: gterm.splits)
qed

lemma steady_check_ref [intro!]:
  assumes "\<And>t e c er. steady (rec t e c er)"
  shows "steady (check_ref n rec name trm ctx erased)"
proof -
  have 1: "steady (\<lambda>s1. if tc_types s1 name = None then cache_type n name dref_t s1 else Ok () s1)"
    for dref_t
    by (rule steadyI) (auto split: if_splits dest: steadyD [OF steady_cache_type])
  have 2: "steady (obind (rec (Some d) None Ctx_new erased)
             (\<lambda>dref_t s1. if tc_types s1 name = None then cache_type n name dref_t s1 else Ok () s1))"
    for d
    by (intro steady_obind assms 1)
  have 3: "steady (\<lambda>s. case map_of (tc_defs s) name of
                  None \<Rightarrow> do_error n Undefined_reference trm ctx s
                | Some d \<Rightarrow>
                    if tc_types s name = None then
                      obind (rec (Some d) None Ctx_new erased) (\<lambda>dref_t s1.
                        if tc_types s1 name = None then cache_type n name dref_t s1
                        else Ok () s1) s
                    else Ok () s)"
    by (rule steadyI)
       (auto split: option.splits if_splits dest: steadyD [OF 2] steadyD [OF steady_do_error])
  have 4: "steady (\<lambda>s. Ok (tc_types s name) s)"
    by (rule steadyI) auto
  show ?thesis
    unfolding check_ref_def by (intro steady_obind 3 4)
qed



subsection \<open>Annotations and variables\<close>

lemma typecheck_Suc:
  "typecheck logs (Suc n) trm expect ctx erased s
     = typecheck_body logs n (typecheck logs n) trm expect ctx erased s"
  by simp

declare typecheck.simps(2) [simp del]

lemma obind_treturn [simp]: "obind (treturn x) f s = f x s"
  by (simp add: obind_def treturn_def)






text \<open>
  C8.  In the empty context \<^verbatim>\<open>ctx_get\<close> does not answer \<^verbatim>\<open>null\<close>: for index \<open>0\<close> it
  returns a frame whose type is \<^verbatim>\<open>null\<close>, and for a larger index it reads a field of
  \<^verbatim>\<open>undefined\<close>.  Checking \<open>Var 0\<close> there returns \<^verbatim>\<open>null\<close> as the type and raises nothing;
  checking \<open>Var 1\<close> raises the host's \<^verbatim>\<open>TypeError\<close>.  Neither raises the unbound variable
  error.
\<close>

theorem unbound_in_empty_context:
  "typecheck logs (Suc n) (Some (Var 0)) None Ctx_new erased s = Ok None s
   \<and> typecheck logs (Suc n) (Some (Var 1)) None Ctx_new erased s = Err Host_TypeError s"
  by (simp add: typecheck_Suc typecheck_body_def check_var_def hctx_get_def ctx_get_def
      read_ctx_def obind_def treturn_def)

end
